theory Spec2Isabelle
  imports Complex_Main "HOL-Library.Word" "HOL-Library.Sublist" "HOL-Library.Multiset"
    "HOL-Library.Log_Nat"
begin

unbundle bit_operations_syntax

section \<open>Go values\<close>

text \<open>
  The program is built for a 64-bit target, where Go's \<^verbatim>\<open>int\<close> is a 64-bit two's complement
  integer whose arithmetic wraps around: \<open>go_int\<close> is \<open>64 word\<close>, compared with the signed
  orders \<open><s\<close> and \<open>\<le>s\<close> and read as a number with \<open>sint\<close>.
  Strings are byte lists, as in Go. The time stamps returned by \<^verbatim>\<open>TimeNow()\<close> are natural
  numbers handed to the operation that reads the clock.
\<close>

type_synonym go_int = "64 word"
type_synonym Time = nat

text \<open>\<^verbatim>\<open>len(xs)\<close>.\<close>

definition len :: "'a list \<Rightarrow> go_int" where
  "len xs = of_nat (length xs)"

subsection \<open>Floating-point numbers\<close>

text \<open>
  A \<^verbatim>\<open>float64\<close> is an IEEE 754 binary64 value: a finite number, one of the two infinities, or
  NaN. The finite values are the numbers \<open>m * 2 ^ e\<close> with integers \<open>\<bar>m\<bar> < 2 ^ 53\<close> and
  \<open>-1074 \<le> e \<le> 971\<close>; \<open>Finite x\<close> is the value \<open>x\<close>. The model has one zero: the sign of a
  zero shows only in a division by it, and the divisors of this program that can be zero
  are conversions of integers and sums with 1, which are never the negative zero.

  Go's \<^verbatim>\<open>+\<close>, \<^verbatim>\<open>*\<close> and \<^verbatim>\<open>/\<close> on \<^verbatim>\<open>float64\<close> and the conversion of an integer compute the exact
  result and round it to the nearest \<^verbatim>\<open>float64\<close>, to the one with the even significand
  where two are equally near, and to an infinity from \<open>2 ^ 1024\<close> on: this is \<open>round64\<close>.
  Every operation is rounded by itself, as on amd64, where the compiler fuses none.
  There, \<open>ilog2 x\<close> is the exponent \<open>\<lfloor>log\<^sub>2 x\<rfloor>\<close> of a positive \<open>x\<close>, \<open>ulp\<close> is the distance between
  neighbouring \<^verbatim>\<open>float64\<close> values of that exponent (\<open>2 ^ - 1074\<close> for the subnormal ones), and
  \<open>round_even\<close> rounds to the nearest integer, ties to the even one.
\<close>

datatype float64 = Finite real | PosInf | NegInf | NaN

definition pow2 :: "int \<Rightarrow> real" where
  "pow2 e = (if 0 \<le> e then 2 ^ nat e else 1 / 2 ^ nat (- e))"

definition ilog2 :: "real \<Rightarrow> int" where
  "ilog2 x = (if 1 \<le> x then bitlen \<lfloor>x\<rfloor> - 1 else - bitlen (\<lceil>1 / x\<rceil> - 1))"

definition round_even :: "real \<Rightarrow> int" where
  "round_even x =
     (let n = \<lfloor>x\<rfloor>; d = x - of_int n
      in if d < 1 / 2 then n else if 1 / 2 < d then n + 1 else if even n then n else n + 1)"

definition round64 :: "real \<Rightarrow> float64" where
  "round64 x =
     (if x = 0 then Finite 0
      else
        let e = max (ilog2 \<bar>x\<bar>) (- 1022);
            ulp = pow2 (e - 52);
            y = of_int (round_even (x / ulp)) * ulp
        in if 2 ^ 1024 \<le> y then PosInf
           else if y \<le> - (2 ^ 1024) then NegInf
           else Finite y)"

text \<open>
  The operations \<^verbatim>\<open>x + y\<close>, \<^verbatim>\<open>x * y\<close> and \<^verbatim>\<open>x / y\<close>. An operation on NaN gives NaN; so do
  \<open>\<infinity> - \<infinity>\<close>, \<open>0 * \<infinity>\<close>, \<open>0 / 0\<close> and \<open>\<infinity> / \<infinity>\<close>. A finite number other than zero divided by
  zero is an infinity. Go does not panic on a floating-point division by zero.
\<close>

fun fadd :: "float64 \<Rightarrow> float64 \<Rightarrow> float64" where
  "fadd (Finite x) (Finite y) = round64 (x + y)"
| "fadd NaN y = NaN"
| "fadd x NaN = NaN"
| "fadd PosInf NegInf = NaN"
| "fadd NegInf PosInf = NaN"
| "fadd PosInf y = PosInf"
| "fadd NegInf y = NegInf"
| "fadd x PosInf = PosInf"
| "fadd x NegInf = NegInf"

text \<open>The infinity with the sign of \<open>s\<close>.\<close>

definition signed_inf :: "real \<Rightarrow> float64" where
  "signed_inf s = (if 0 \<le> s then PosInf else NegInf)"

fun fmul :: "float64 \<Rightarrow> float64 \<Rightarrow> float64" where
  "fmul (Finite x) (Finite y) = round64 (x * y)"
| "fmul NaN y = NaN"
| "fmul x NaN = NaN"
| "fmul (Finite x) PosInf = (if x = 0 then NaN else signed_inf x)"
| "fmul (Finite x) NegInf = (if x = 0 then NaN else signed_inf (- x))"
| "fmul PosInf (Finite y) = (if y = 0 then NaN else signed_inf y)"
| "fmul NegInf (Finite y) = (if y = 0 then NaN else signed_inf (- y))"
| "fmul PosInf PosInf = PosInf"
| "fmul NegInf NegInf = PosInf"
| "fmul PosInf NegInf = NegInf"
| "fmul NegInf PosInf = NegInf"

fun fdiv :: "float64 \<Rightarrow> float64 \<Rightarrow> float64" where
  "fdiv (Finite x) (Finite y) =
     (if y = 0 then (if x = 0 then NaN else signed_inf x) else round64 (x / y))"
| "fdiv NaN y = NaN"
| "fdiv x NaN = NaN"
| "fdiv (Finite x) PosInf = Finite 0"
| "fdiv (Finite x) NegInf = Finite 0"
| "fdiv PosInf (Finite y) = signed_inf y"
| "fdiv NegInf (Finite y) = (if 0 \<le> y then NegInf else PosInf)"
| "fdiv PosInf y = NaN"
| "fdiv NegInf y = NaN"

text \<open>
  The comparisons \<^verbatim>\<open>x < y\<close>, \<^verbatim>\<open>x == y\<close> and \<^verbatim>\<open>x <= y\<close>; \<^verbatim>\<open>x > y\<close> is \<open>fless y x\<close> and \<^verbatim>\<open>x >= y\<close> is
  \<open>fle y x\<close>. Every comparison with NaN is false.
\<close>

fun fless :: "float64 \<Rightarrow> float64 \<Rightarrow> bool" where
  "fless (Finite x) (Finite y) = (x < y)"
| "fless NaN y = False"
| "fless x NaN = False"
| "fless x NegInf = False"
| "fless PosInf y = False"
| "fless NegInf y = True"
| "fless x PosInf = True"

fun feq :: "float64 \<Rightarrow> float64 \<Rightarrow> bool" where
  "feq NaN y = False"
| "feq x NaN = False"
| "feq x y = (x = y)"

definition fle :: "float64 \<Rightarrow> float64 \<Rightarrow> bool" where
  "fle x y = (fless x y \<or> feq x y)"

text \<open>
  The conversion \<^verbatim>\<open>int(x)\<close> of a float discards the fraction (truncation towards zero).
  Where the truncated value does not fit the integer type, and for an infinity and NaN, Go
  leaves the result to the implementation; the model returns what the conversion
  instruction of amd64 returns, the least 64-bit integer.
\<close>

definition trunc :: "real \<Rightarrow> int" where
  "trunc x = (if 0 \<le> x then \<lfloor>x\<rfloor> else \<lceil>x\<rceil>)"

definition int_of_float64 :: "float64 \<Rightarrow> go_int" where
  "int_of_float64 x =
     (case x of
        Finite v \<Rightarrow>
          if - (2 ^ 63) \<le> trunc v \<and> trunc v < 2 ^ 63 then word_of_int (trunc v)
          else word_of_int (- (2 ^ 63))
      | _ \<Rightarrow> word_of_int (- (2 ^ 63)))"

text \<open>The conversion \<^verbatim>\<open>float64(n)\<close> of an integer, rounded where \<open>\<bar>n\<bar>\<close> exceeds \<open>2 ^ 53\<close>.\<close>

definition float64_of_int :: "go_int \<Rightarrow> float64" where
  "float64_of_int n = round64 (real_of_int (sint n))"

subsection \<open>The functions of package \<^verbatim>\<open>strings\<close> the program calls\<close>

text \<open>
  \<^verbatim>\<open>strings.ToLower\<close>, \<^verbatim>\<open>strings.TrimSpace\<close> and \<^verbatim>\<open>strings.EqualFold\<close> belong to Go's standard
  library and work on the Unicode characters that the bytes of a string encode. The model
  of the search takes them as an argument, a record \<open>S\<close> of the three functions, and
  assumes nothing about them. \<^verbatim>\<open>strings.Contains(s, substr)\<close> compares bytes: it holds when
  \<open>substr\<close> occurs in \<open>s\<close>, as it always does when it is empty.
\<close>

record strings =
  ToLower :: "string \<Rightarrow> string"
  TrimSpace :: "string \<Rightarrow> string"
  EqualFold :: "string \<Rightarrow> string \<Rightarrow> bool"

fun Contains :: "string \<Rightarrow> string \<Rightarrow> bool" where
  "Contains [] substr = (substr = [])"
| "Contains (c # s) substr = (prefix substr (c # s) \<or> Contains s substr)"

text \<open>
  What the three functions do to a string of ASCII characters: the letters \<open>A\<close> to \<open>Z\<close> are
  the upper-case letters, and tab, line feed, vertical tab, form feed, carriage return and
  the space are the white space. The examples are run with \<open>ascii_strings\<close>, on ASCII text.
\<close>

definition lower_char :: "char \<Rightarrow> char" where
  "lower_char c =
     (case map_of (zip ''ABCDEFGHIJKLMNOPQRSTUVWXYZ'' ''abcdefghijklmnopqrstuvwxyz'') c of
        Some l \<Rightarrow> l
      | None \<Rightarrow> c)"

definition is_space :: "char \<Rightarrow> bool" where
  "is_space c = (c \<in> set [CHR 0x09, CHR 0x0A, CHR 0x0B, CHR 0x0C, CHR 0x0D, CHR '' ''])"

definition ascii_strings :: strings where
  "ascii_strings =
     \<lparr>ToLower = map lower_char,
      TrimSpace = (\<lambda>s. rev (dropWhile is_space (rev (dropWhile is_space s)))),
      EqualFold = (\<lambda>s t. map lower_char s = map lower_char t)\<rparr>"

subsection \<open>Errors\<close>

text \<open>
  The error values of package \<^verbatim>\<open>errors\<close> that the modelled operations return, and
  \<open>Panic\<close> for a run-time panic (a slice expression out of range).
\<close>

datatype error =
    NotFoundError string string
  | ErrUserNotFound
  | ErrUserAlreadyExists
  | OperationError string string error
  | Panic string

section \<open>Package \<^verbatim>\<open>models\<close>\<close>

type_synonym UserID = string
type_synonym ContentID = string
type_synonym PeerID = string
type_synonym ReputationScore = go_int
type_synonym Rating = float64
type_synonym UserClassification = string
type_synonym ResourceType = string
type_synonym PeerStatus = string

text \<open>
  The constants \<^verbatim>\<open>models.MaxRating\<close> and \<^verbatim>\<open>models.MinRating\<close> (the search filters have a field
  \<^verbatim>\<open>MinRating\<close> of their own).
\<close>

definition models_MaxRating :: float64 where "models_MaxRating = Finite 5.0"
definition models_MinRating :: float64 where "models_MinRating = Finite 1.0"

definition ContributorThreshold :: go_int where "ContributorThreshold = 50"
definition NeutralThreshold :: go_int where "NeutralThreshold = 0"
definition LowReputation :: go_int where "LowReputation = - 100"
definition UploadWeight :: go_int where "UploadWeight = 2"
definition DownloadWeight :: go_int where "DownloadWeight = 1"
definition RatingWeight :: go_int where "RatingWeight = 10"

definition ClassContributor :: UserClassification where "ClassContributor = ''Contributor''"
definition ClassNeutral :: UserClassification where "ClassNeutral = ''Neutral''"
definition ClassLeecher :: UserClassification where "ClassLeecher = ''Leecher''"

definition StatusOffline :: PeerStatus where "StatusOffline = ''offline''"

definition IsValidRating :: "Rating \<Rightarrow> bool" where
  "IsValidRating r = (fle models_MinRating r \<and> fle r models_MaxRating)"

definition GetClassification :: "ReputationScore \<Rightarrow> UserClassification" where
  "GetClassification score =
     (if ContributorThreshold <s score then ClassContributor
      else if NeutralThreshold \<le>s score then ClassNeutral
      else ClassLeecher)"

subsection \<open>Resources\<close>

record Resource =
  ID :: ContentID
  OriginalID :: string
  Filename :: string
  Extension :: string
  Size :: "64 word"
  Type :: ResourceType
  MimeType :: string
  Title :: string
  Description :: string
  Subject :: string
  Tags :: "string list"
  UploadedBy :: UserID
  AvailableOn :: "PeerID list"
  ChunkCount :: go_int
  TotalRatings :: go_int
  AverageRating :: float64
  RatingSum :: float64
  CreatedAt :: Time
  UpdatedAt :: Time
  DownloadCount :: go_int

text \<open>
  \<^verbatim>\<open>func (r *Resource) AddRating(rating Rating)\<close>; \<open>now\<close> is the value of \<^verbatim>\<open>TimeNow()\<close>.
\<close>

definition AddRating :: "Time \<Rightarrow> Resource \<Rightarrow> Rating \<Rightarrow> Resource" where
  "AddRating now r rating =
     (if \<not> IsValidRating rating then r
      else
        let r1 = r\<lparr>TotalRatings := TotalRatings r + 1\<rparr>;
            r2 = r1\<lparr>RatingSum := fadd (RatingSum r1) rating\<rparr>;
            r3 = r2\<lparr>Resource.AverageRating := fdiv (RatingSum r2) (float64_of_int (TotalRatings r2))\<rparr>
        in r3\<lparr>UpdatedAt := now\<rparr>)"

record SearchResult =
  Resource :: Resource
  AvailablePeers :: go_int
  Relevance :: float64

record SearchResults =
  Query :: string
  Results :: "SearchResult list"
  TotalCount :: go_int
  Page :: go_int
  PageSize :: go_int

subsection \<open>Users\<close>

record User =
  ID :: UserID
  Username :: string
  Email :: string
  Password :: string
  Reputation :: ReputationScore
  Classification :: UserClassification
  TotalUploads :: go_int
  TotalDownloads :: go_int
  AverageRating :: float64
  CreatedAt :: Time
  LastActiveAt :: Time
  PeerID :: PeerID
  Status :: PeerStatus
  IPAddress :: string

text \<open>\<^verbatim>\<open>NewUser\<close>; the fields the composite literal leaves out have their zero values.\<close>

definition NewUser :: "Time \<Rightarrow> UserID \<Rightarrow> string \<Rightarrow> string \<Rightarrow> User" where
  "NewUser now uid username email =
     \<lparr>User.ID = uid, Username = username, Email = email, Password = [],
      Reputation = 0, Classification = ClassNeutral,
      TotalUploads = 0, TotalDownloads = 0, AverageRating = Finite 0,
      CreatedAt = now, LastActiveAt = now,
      PeerID = [], Status = StatusOffline, IPAddress = []\<rparr>"

section \<open>Package \<^verbatim>\<open>services\<close>: reputation\<close>

definition CalculateReputation :: "go_int \<Rightarrow> go_int \<Rightarrow> float64 \<Rightarrow> go_int" where
  "CalculateReputation uploads downloads avgRating =
     (let uploadScore = uploads * UploadWeight;
          downloadPenalty = downloads * DownloadWeight;
          ratingBonus = int_of_float64 (fmul avgRating (float64_of_int RatingWeight));
          score = uploadScore - downloadPenalty + ratingBonus
      in if score <s LowReputation then LowReputation else score)"

definition GetClassificationForScore :: "go_int \<Rightarrow> UserClassification" where
  "GetClassificationForScore score =
     (if ContributorThreshold <s score then ClassContributor
      else if NeutralThreshold \<le>s score then ClassNeutral
      else ClassLeecher)"

text \<open>
  The score formula as the specification writes it, over the integers and with the product
  of real numbers: \<open>max (-100) (uploads * 2 - downloads * 1 + trunc (averageRating * 10))\<close>.
\<close>

definition reputation_formula :: "int \<Rightarrow> int \<Rightarrow> real \<Rightarrow> int" where
  "reputation_formula uploads downloads averageRating =
     max (- 100) (uploads * 2 - downloads * 1 + trunc (averageRating * 10))"

section \<open>Package \<^verbatim>\<open>store\<close>: the resources of the \<^verbatim>\<open>MemoryStore\<close>\<close>

text \<open>
  The store keeps its resources in a Go map from \<^verbatim>\<open>ContentID\<close> to \<^verbatim>\<open>*Resource\<close>. The search
  only reads the resources, so the model keeps the value each pointer refers to.

  \<^verbatim>\<open>GetAll\<close> builds its result with \<^verbatim>\<open>for _, resource := range m.resources\<close>. Go does not
  specify the order in which a range statement visits a map, and the run time starts
  every such loop at a random position. The order the loop takes is therefore an argument
  of the model: \<open>order\<close> is the list of keys as this run of the loop visits them, and
  \<open>enumerates order m\<close> says that it is such a list for the map \<open>m\<close>.
  \<^verbatim>\<open>GetAll\<close> never returns an error.
\<close>

definition enumerates :: "'k list \<Rightarrow> ('k \<rightharpoonup> 'v) \<Rightarrow> bool" where
  "enumerates order m = (distinct order \<and> set order = dom m)"

definition GetAll :: "ContentID list \<Rightarrow> (ContentID \<rightharpoonup> Resource) \<Rightarrow> error + Resource list" where
  "GetAll order m = Inr (List.map_filter m order)"

section \<open>Package \<^verbatim>\<open>services\<close>: search\<close>

record SearchFilters =
  Subject :: string
  Type :: ResourceType
  MinRating :: float64
  Tags :: "string list"
  SortBy :: string
  SortOrder :: string
  Page :: go_int
  PageSize :: go_int

definition calculateRelevance :: "strings \<Rightarrow> Resource \<Rightarrow> string \<Rightarrow> float64" where
  "calculateRelevance S r query =
     (if query = [] then Finite 1.0
      else
        let rel = Finite 0.0;
            rel = (if Contains (ToLower S (Title r)) query then fadd rel (Finite 3.0) else rel);
            rel = (if Contains (ToLower S (Filename r)) query then fadd rel (Finite 2.0) else rel);
            rel = (if Contains (ToLower S (Resource.Subject r)) query then fadd rel (Finite 1.5)
                   else rel)
        in rel)"

definition matchesFilters :: "strings \<Rightarrow> Resource \<Rightarrow> SearchFilters \<Rightarrow> bool" where
  "matchesFilters S r f =
     (if SearchFilters.Subject f \<noteq> []
           \<and> \<not> EqualFold S (Resource.Subject r) (SearchFilters.Subject f)
      then False
      else if SearchFilters.Type f \<noteq> [] \<and> Resource.Type r \<noteq> SearchFilters.Type f then False
      else if fless (Finite 0) (MinRating f) \<and> fless (Resource.AverageRating r) (MinRating f)
      then False
      else True)"

text \<open>
  The loop of \<^verbatim>\<open>Search\<close> over the resources, appending to \<open>results\<close>.
\<close>

fun search_loop ::
  "strings \<Rightarrow> Resource list \<Rightarrow> string \<Rightarrow> SearchFilters \<Rightarrow> SearchResult list
     \<Rightarrow> SearchResult list" where
  "search_loop S [] query filters results = results"
| "search_loop S (resource # rest) query filters results =
     (let relevance = calculateRelevance S resource query
      in if query \<noteq> [] \<and> feq relevance (Finite 0) then search_loop S rest query filters results
         else if \<not> matchesFilters S resource filters then search_loop S rest query filters results
         else search_loop S rest query filters
                (results @ [\<lparr>Resource = resource,
                              AvailablePeers = len (AvailableOn resource),
                              Relevance = relevance\<rparr>]))"

text \<open>
  The comparison that \<^verbatim>\<open>sortResults\<close> hands to \<^verbatim>\<open>sort.Slice\<close>, on the two elements it is
  asked about: \<open>key_less\<close> is the value its \<^verbatim>\<open>switch\<close> statement gives the variable
  \<^verbatim>\<open>less\<close>.
\<close>

definition key_less :: "string \<Rightarrow> SearchResult \<Rightarrow> SearchResult \<Rightarrow> bool" where
  "key_less sort_by a b =
     (if sort_by = ''rating''
        then fless (Resource.AverageRating (Resource a)) (Resource.AverageRating (Resource b))
      else if sort_by = ''downloads''
        then DownloadCount (Resource a) <s DownloadCount (Resource b)
      else fless (Relevance a) (Relevance b))"

definition result_less :: "string \<Rightarrow> string \<Rightarrow> SearchResult \<Rightarrow> SearchResult \<Rightarrow> bool" where
  "result_less sort_by order a b =
     (let lt = key_less sort_by a b
      in if order = ''desc'' then \<not> lt else lt)"

text \<open>
  \<^verbatim>\<open>sort.Slice\<close> belongs to Go's standard library. The model of the search takes it as an
  argument \<open>Slice\<close>: a function from the comparison and the slice to the slice as the call
  leaves it. The library sorts in place by swapping elements, so the result is a
  permutation of the argument (\<open>permutes\<close>), and it promises a sorted result for a
  comparison that is a strict order (\<open>sorts\<close>); it does not promise a stable sort.
\<close>

type_synonym 'a sorter = "('a \<Rightarrow> 'a \<Rightarrow> bool) \<Rightarrow> 'a list \<Rightarrow> 'a list"

definition permutes :: "'a sorter \<Rightarrow> bool" where
  "permutes Slice = (\<forall>lt xs. mset (Slice lt xs) = mset xs)"

definition strict_order_on :: "'a set \<Rightarrow> ('a \<Rightarrow> 'a \<Rightarrow> bool) \<Rightarrow> bool" where
  "strict_order_on A lt =
     ((\<forall>a\<in>A. \<forall>b\<in>A. a \<noteq> b \<longrightarrow> (lt a b \<longleftrightarrow> \<not> lt b a)) \<and>
      (\<forall>a\<in>A. \<forall>b\<in>A. \<forall>c\<in>A. lt a b \<longrightarrow> lt b c \<longrightarrow> lt a c))"

definition sorts :: "'a sorter \<Rightarrow> bool" where
  "sorts Slice =
     (\<forall>lt xs. distinct xs \<longrightarrow> strict_order_on (set xs) lt \<longrightarrow> sorted_wrt lt (Slice lt xs))"

text \<open>
  On a slice of at most 12 elements \<^verbatim>\<open>sort.Slice\<close> runs the library's insertion sort
  (\<^verbatim>\<open>insertionSortLessFunc\<close>): each element in turn is swapped towards the front for as
  long as it is less than its left neighbour. \<open>insert_left\<close> takes the sorted prefix in
  reverse order.
\<close>

fun insert_left :: "('a \<Rightarrow> 'a \<Rightarrow> bool) \<Rightarrow> 'a \<Rightarrow> 'a list \<Rightarrow> 'a list" where
  "insert_left lt x [] = [x]"
| "insert_left lt x (y # ys) = (if lt x y then y # insert_left lt x ys else x # y # ys)"

definition insertionSort :: "'a sorter" where
  "insertionSort lt xs = rev (foldl (\<lambda>acc x. insert_left lt x acc) [] xs)"

definition sortResults ::
  "SearchResult sorter \<Rightarrow> SearchResult list \<Rightarrow> string \<Rightarrow> string \<Rightarrow> SearchResult list" where
  "sortResults Slice results sort_by order = Slice (result_less sort_by order) results"

text \<open>
  The slice expression \<^verbatim>\<open>xs[lo:hi]\<close> panics unless \<open>0 \<le> lo \<le> hi \<le> cap(xs)\<close>. Lists have no
  capacity; the model checks \<open>hi\<close> against the length, which is the same wherever \<open>hi\<close>
  is at most the length, as it is for the clamped \<open>end\<close> of \<^verbatim>\<open>paginate\<close>.
\<close>

definition slice :: "'a list \<Rightarrow> go_int \<Rightarrow> go_int \<Rightarrow> error + 'a list" where
  "slice xs lo hi =
     (if 0 \<le>s lo \<and> lo \<le>s hi \<and> hi \<le>s len xs
      then Inr (take (nat (sint hi) - nat (sint lo)) (drop (nat (sint lo)) xs))
      else Inl (Panic ''slice bounds out of range''))"

definition paginate :: "'a list \<Rightarrow> go_int \<Rightarrow> go_int \<Rightarrow> error + 'a list" where
  "paginate results page psize =
     (let page = (if page <s 1 then 1 else page);
          psize = (if psize <s 1 then 10 else psize);
          offset = (page - 1) * psize
      in if len results \<le>s offset then Inr []
         else
           let end = offset + psize;
               end = (if len results <s end then len results else end)
           in slice results offset end)"

definition Search ::
  "strings \<Rightarrow> SearchResult sorter \<Rightarrow> ContentID list \<Rightarrow> (ContentID \<rightharpoonup> Resource) \<Rightarrow> string
     \<Rightarrow> SearchFilters \<Rightarrow> error + SearchResults" where
  "Search S Slice order resources query filters =
     (case GetAll order resources of
        Inl err \<Rightarrow> Inl err
      | Inr all \<Rightarrow>
          let query = ToLower S (TrimSpace S query);
              results = search_loop S all query filters [];
              results = sortResults Slice results (SortBy filters) (SortOrder filters);
              totalCount = len results
          in case paginate results (SearchFilters.Page filters) (SearchFilters.PageSize filters) of
               Inl err \<Rightarrow> Inl err
             | Inr results \<Rightarrow>
                 Inr \<lparr>Query = query, Results = results, TotalCount = totalCount,
                      Page = SearchFilters.Page filters,
                      PageSize = SearchFilters.PageSize filters\<rparr>)"

subsection \<open>What the loop of the search collects\<close>

text \<open>
  A resource is kept by the loop when the query is empty or the relevance is not zero,
  and the filters accept it; \<open>to_result\<close> is the entry the loop appends for it.
\<close>

definition is_match :: "strings \<Rightarrow> string \<Rightarrow> SearchFilters \<Rightarrow> Resource \<Rightarrow> bool" where
  "is_match S query filters r =
     ((query = [] \<or> \<not> feq (calculateRelevance S r query) (Finite 0)) \<and> matchesFilters S r filters)"

definition to_result :: "strings \<Rightarrow> string \<Rightarrow> Resource \<Rightarrow> SearchResult" where
  "to_result S query r =
     \<lparr>Resource = r, AvailablePeers = len (AvailableOn r),
      Relevance = calculateRelevance S r query\<rparr>"

definition matches ::
  "strings \<Rightarrow> Resource list \<Rightarrow> string \<Rightarrow> SearchFilters \<Rightarrow> SearchResult list" where
  "matches S all query filters = map (to_result S query) (filter (is_match S query filters) all)"

subsection \<open>Relevance as the specification words it\<close>

text \<open>
  A field is hit when its lower-cased text contains the query; the weights of the fields
  hit are added up: 3 for the title, 2 for the file name and 1.5 for the subject.
\<close>

definition hit :: "strings \<Rightarrow> string \<Rightarrow> string \<Rightarrow> bool" where
  "hit S query field = Contains (ToLower S field) query"

definition weighted_hits :: "strings \<Rightarrow> string \<Rightarrow> Resource \<Rightarrow> real" where
  "weighted_hits S query r =
     (if hit S query (Title r) then 3 else 0)
     + (if hit S query (Filename r) then 2 else 0)
     + (if hit S query (Resource.Subject r) then 1.5 else 0)"

text \<open>
  Relevance as the claim words it, for the query string the caller passes: 1 for the empty
  query, and otherwise the weights of the fields that contain the query, letter case
  ignored. A resource is then dropped when the query is not empty and its relevance is 0.
\<close>

definition relevance_claimed :: "strings \<Rightarrow> string \<Rightarrow> Resource \<Rightarrow> real" where
  "relevance_claimed S query r =
     (if query = [] then 1 else weighted_hits S (ToLower S query) r)"

definition dropped_claimed :: "strings \<Rightarrow> string \<Rightarrow> Resource \<Rightarrow> bool" where
  "dropped_claimed S query r = (query \<noteq> [] \<and> relevance_claimed S query r = 0)"

subsection \<open>Ties\<close>

text \<open>
  Two results tie when the comparison calls neither of them less than the other.
  \<open>tie_free lt xs\<close>: no two entries of the list \<open>xs\<close> tie.
\<close>

fun tie_free :: "('a \<Rightarrow> 'a \<Rightarrow> bool) \<Rightarrow> 'a list \<Rightarrow> bool" where
  "tie_free lt [] = True"
| "tie_free lt (x # xs) = (list_all (\<lambda>y. lt x y \<or> lt y x) xs \<and> tie_free lt xs)"

subsection \<open>Pagination as the specification words it\<close>

text \<open>
  The page number and the page size \<^verbatim>\<open>paginate\<close> works with, as numbers, and the elements
  of a list at the positions \<open>offset \<le> i < min (offset + size) total\<close>.
\<close>

definition effective_page :: "go_int \<Rightarrow> int" where
  "effective_page page = (if sint page < 1 then 1 else sint page)"

definition effective_size :: "go_int \<Rightarrow> int" where
  "effective_size psize = (if sint psize < 1 then 10 else sint psize)"

definition window :: "'a list \<Rightarrow> int \<Rightarrow> int \<Rightarrow> 'a list" where
  "window xs offset psize =
     (if int (length xs) \<le> offset then []
      else map (nth xs) [nat offset ..< nat (min (offset + psize) (int (length xs)))])"

text \<open>
  Pagination as the claim words it: the page number clamped to at least 1, the page size
  10 when unset (the zero value) and otherwise clamped to at least 1.
\<close>

definition paginate_claimed :: "'a list \<Rightarrow> int \<Rightarrow> int \<Rightarrow> 'a list" where
  "paginate_claimed xs page pageSize =
     (let page = max 1 page;
          pageSize = (if pageSize = 0 then 10 else max 1 pageSize)
      in window xs ((page - 1) * pageSize) pageSize)"

text \<open>
  A client that asks for the pages \<open>1, \<dots>, n\<close> with one page size and puts them together.
\<close>

fun concat_pages :: "(error + 'a list) list \<Rightarrow> error + 'a list" where
  "concat_pages [] = Inr []"
| "concat_pages (Inl err # pages) = Inl err"
| "concat_pages (Inr xs # pages) =
     (case concat_pages pages of Inl err \<Rightarrow> Inl err | Inr ys \<Rightarrow> Inr (xs @ ys))"

definition all_pages :: "'a list \<Rightarrow> go_int \<Rightarrow> nat \<Rightarrow> error + 'a list" where
  "all_pages results psize n =
     concat_pages (map (\<lambda>p. paginate results (of_nat p) psize) [1 ..< Suc n])"

text \<open>The number of pages of one size that hold a list: its length divided by the size, rounded up.\<close>

definition pages_needed :: "'a list \<Rightarrow> go_int \<Rightarrow> nat" where
  "pages_needed results psize = (length results + nat (sint psize) - 1) div nat (sint psize)"

section \<open>Package \<^verbatim>\<open>store\<close>: the users of the \<^verbatim>\<open>MemoryStore\<close>\<close>

text \<open>
  The store keeps its users in a Go map from \<^verbatim>\<open>UserID\<close> to \<^verbatim>\<open>*User\<close>, and the services change a
  user through the pointer they get from the store. The model therefore has the pointers:
  \<open>users\<close> is the map, \<open>heap\<close> gives the \<^verbatim>\<open>User\<close> object at an address, and \<open>next_addr\<close> is the
  address of the next object that \<^verbatim>\<open>NewUser\<close> allocates. A value of type \<open>Store\<close> is the state
  of the program as far as users are concerned; every operation returns the state it
  leaves. \<open>assign\<close> is an assignment to fields of the object at an address.
\<close>

type_synonym addr = nat

record Store =
  users :: "UserID \<rightharpoonup> addr"
  heap :: "addr \<Rightarrow> User"
  next_addr :: addr

definition assign :: "Store \<Rightarrow> addr \<Rightarrow> (User \<Rightarrow> User) \<Rightarrow> Store" where
  "assign st a f = st\<lparr>heap := (heap st)(a := f (heap st a))\<rparr>"

text \<open>\<^verbatim>\<open>NewMemoryStore\<close>: an empty map; no object has been allocated.\<close>

definition NewMemoryStore :: Store where
  "NewMemoryStore = \<lparr>users = Map.empty, heap = (\<lambda>a. NewUser 0 [] [] []), next_addr = 0\<rparr>"

definition Create :: "Store \<Rightarrow> addr \<Rightarrow> error option \<times> Store" where
  "Create st user =
     (if users st (User.ID (heap st user)) \<noteq> None then (Some ErrUserAlreadyExists, st)
      else (None, st\<lparr>users := (users st)(User.ID (heap st user) \<mapsto> user)\<rparr>))"

definition GetUser :: "Store \<Rightarrow> UserID \<Rightarrow> error + addr" where
  "GetUser st uid =
     (case users st uid of
        None \<Rightarrow> Inl (NotFoundError ''user'' uid)
      | Some user \<Rightarrow> Inr user)"

definition UpdateUser :: "Store \<Rightarrow> addr \<Rightarrow> error option \<times> Store" where
  "UpdateUser st user =
     (if users st (User.ID (heap st user)) = None then (Some ErrUserNotFound, st)
      else (None, st\<lparr>users := (users st)(User.ID (heap st user) \<mapsto> user)\<rparr>))"

text \<open>
  \<^verbatim>\<open>GetAllUsers\<close> ranges over the map; \<open>order\<close> is the order in which this run of the loop
  visits the keys (see \<open>GetAll\<close>). It never returns an error.
\<close>

definition GetAllUsers :: "UserID list \<Rightarrow> Store \<Rightarrow> error + addr list" where
  "GetAllUsers order st = Inr (List.map_filter (users st) order)"

section \<open>Package \<^verbatim>\<open>services\<close>: users\<close>

definition UpdateReputationByValue :: "User \<Rightarrow> go_int \<Rightarrow> User" where
  "UpdateReputationByValue user delta =
     (let user = user\<lparr>Reputation := Reputation user + delta\<rparr>
      in user\<lparr>Classification := GetClassification (Reputation user)\<rparr>)"

definition UpdateReputationByPointer :: "Store \<Rightarrow> addr \<Rightarrow> go_int \<Rightarrow> Store" where
  "UpdateReputationByPointer st user delta =
     (let st = assign st user (\<lambda>u. u\<lparr>Reputation := Reputation u + delta\<rparr>)
      in assign st user (\<lambda>u. u\<lparr>Classification := GetClassification (Reputation u)\<rparr>))"

text \<open>
  \<^verbatim>\<open>CreateUser\<close>; \<open>uid\<close> is the identifier \<^verbatim>\<open>uuid.New()\<close> yields and \<open>now\<close> the time.
\<close>

definition CreateUser ::
  "Store \<Rightarrow> UserID \<Rightarrow> Time \<Rightarrow> string \<Rightarrow> string \<Rightarrow> string \<Rightarrow> (error + addr) \<times> Store" where
  "CreateUser st uid now username email password =
     (let user = next_addr st;
          st = st\<lparr>heap := (heap st)(user := NewUser now uid username email),
                  next_addr := user + 1\<rparr>;
          st = assign st user (\<lambda>u. u\<lparr>Password := password\<rparr>)
      in case Create st user of
           (Some err, st) \<Rightarrow> (Inl (OperationError ''CreateUser'' ''failed to store user'' err), st)
         | (None, st) \<Rightarrow> (Inr user, st))"

definition RecordUpload :: "Store \<Rightarrow> UserID \<Rightarrow> error option \<times> Store" where
  "RecordUpload st userID =
     (case GetUser st userID of
        Inl err \<Rightarrow> (Some err, st)
      | Inr user \<Rightarrow>
          let st = assign st user (\<lambda>u. u\<lparr>TotalUploads := TotalUploads u + 1\<rparr>);
              delta = UploadWeight;
              st = UpdateReputationByPointer st user delta
          in UpdateUser st user)"

definition RecordDownload :: "Store \<Rightarrow> UserID \<Rightarrow> error option \<times> Store" where
  "RecordDownload st userID =
     (case GetUser st userID of
        Inl err \<Rightarrow> (Some err, st)
      | Inr user \<Rightarrow>
          let st = assign st user (\<lambda>u. u\<lparr>TotalDownloads := TotalDownloads u + 1\<rparr>);
              delta = - DownloadWeight;
              st = UpdateReputationByPointer st user delta
          in UpdateUser st user)"

text \<open>
  \<^verbatim>\<open>UpdateRatingReceived\<close>. The constant \<^verbatim>\<open>float64(models.RatingWeight)\<close> is \<open>10\<close>.
\<close>

definition UpdateRatingReceived :: "Store \<Rightarrow> UserID \<Rightarrow> Rating \<Rightarrow> error option \<times> Store" where
  "UpdateRatingReceived st userID rating =
     (case GetUser st userID of
        Inl err \<Rightarrow> (Some err, st)
      | Inr user \<Rightarrow>
          let totalRatings = float64_of_int (TotalUploads (heap st user));
              totalRatings = (if feq totalRatings (Finite 0) then Finite 1 else totalRatings);
              currentSum = fmul (User.AverageRating (heap st user)) totalRatings;
              newSum = fadd currentSum rating;
              st = assign st user
                     (\<lambda>u. u\<lparr>User.AverageRating := fdiv newSum (fadd totalRatings (Finite 1))\<rparr>);
              delta = int_of_float64
                        (fdiv (fmul rating (float64_of_int RatingWeight)) (Finite 5.0));
              st = UpdateReputationByPointer st user delta
          in UpdateUser st user)"

section \<open>Package \<^verbatim>\<open>services\<close>: the aggregator\<close>

text \<open>
  The loop of \<^verbatim>\<open>RecalculateAll\<close> over the pointers \<^verbatim>\<open>GetAllUsers\<close> returned. Both outcomes
  of \<^verbatim>\<open>UpdateUser\<close> go on with the next user.
\<close>

fun recalculate_loop :: "addr list \<Rightarrow> Store \<Rightarrow> Store" where
  "recalculate_loop [] st = st"
| "recalculate_loop (user # rest) st =
     (let score = CalculateReputation (TotalUploads (heap st user))
                    (TotalDownloads (heap st user)) (User.AverageRating (heap st user));
          st = assign st user (\<lambda>u. u\<lparr>Reputation := score\<rparr>);
          st = assign st user (\<lambda>u. u\<lparr>Classification := GetClassificationForScore score\<rparr>)
      in case UpdateUser st user of
           (Some err, st) \<Rightarrow> recalculate_loop rest st
         | (None, st) \<Rightarrow> recalculate_loop rest st)"

definition RecalculateAll :: "UserID list \<Rightarrow> Store \<Rightarrow> error option \<times> Store" where
  "RecalculateAll order st =
     (case GetAllUsers order st of
        Inl err \<Rightarrow> (Some err, st)
      | Inr all \<Rightarrow> (None, recalculate_loop all st))"




subsection \<open>Accounts, their consistency and the reachable states\<close>


definition recomputed :: "User \<Rightarrow> User" where
  "recomputed u =
     u\<lparr>Reputation := CalculateReputation (TotalUploads u) (TotalDownloads u) (User.AverageRating u),
       Classification := GetClassificationForScore
          (CalculateReputation (TotalUploads u) (TotalDownloads u) (User.AverageRating u))\<rparr>"

definition consistent :: "User \<Rightarrow> bool" where
  "consistent u = (Classification u = GetClassification (Reputation u))"


text \<open>Every account the store points to is consistent.\<close>

definition stored_consistent :: "Store \<Rightarrow> bool" where
  "stored_consistent st = (\<forall>uid a. users st uid = Some a \<longrightarrow> consistent (heap st a))"

text \<open>
  The states the program reaches from the empty store by creating users, recording
  uploads, downloads and received ratings, and recalculating all reputations.
\<close>

inductive reachable :: "Store \<Rightarrow> bool" where
  init: "reachable NewMemoryStore"
| create: "reachable st \<Longrightarrow> reachable (snd (CreateUser st uid now username email password))"
| upload: "reachable st \<Longrightarrow> reachable (snd (RecordUpload st userID))"
| download: "reachable st \<Longrightarrow> reachable (snd (RecordDownload st userID))"
| rating: "reachable st \<Longrightarrow> reachable (snd (UpdateRatingReceived st userID r))"
| recalculate: "reachable st \<Longrightarrow> reachable (snd (RecalculateAll order st))"

section \<open>Example data\<close>

text \<open>A resource with the given search fields; every other field has its zero value.\<close>

definition sample_resource ::
  "ContentID \<Rightarrow> string \<Rightarrow> string \<Rightarrow> string \<Rightarrow> float64 \<Rightarrow> go_int \<Rightarrow> Resource" where
  "sample_resource cid title filename subject rating downloads =
     \<lparr>Resource.ID = cid, OriginalID = [], Filename = filename, Extension = [], Size = 0,
      Type = [], MimeType = [], Title = title, Description = [], Subject = subject,
      Tags = [], UploadedBy = [], AvailableOn = [], ChunkCount = 0,
      TotalRatings = 0, AverageRating = rating, RatingSum = Finite 0,
      CreatedAt = 0, UpdatedAt = 0, DownloadCount = downloads\<rparr>"

definition library :: "ContentID \<rightharpoonup> Resource" where
  "library = [''a'' \<mapsto> sample_resource ''a'' ''Go Programming'' ''go.pdf'' ''CS'' (Finite 4.5) 10,
              ''b'' \<mapsto> sample_resource ''b'' ''Go Networking'' ''net.pdf'' ''CS'' (Finite 4.0) 3,
              ''c'' \<mapsto> sample_resource ''c'' ''Calculus'' ''calc.pdf'' ''Math'' (Finite 3.5) 7]"

definition no_filters :: SearchFilters where
  "no_filters =
     \<lparr>SearchFilters.Subject = [], Type = [], MinRating = Finite 0, Tags = [],
      SortBy = [], SortOrder = [], Page = 0, PageSize = 0\<rparr>"

text \<open>
  A store in which the object under the key \<open>x\<close> carries an identifier that is no key of the
  map, so that \<^verbatim>\<open>UpdateUser\<close> fails for it.
\<close>

definition mismatched_store :: Store where
  "mismatched_store =
     \<lparr>users = [''x'' \<mapsto> 0, ''y'' \<mapsto> 1],
      heap = (\<lambda>a. NewUser 0 [] [] [])
               (0 := (NewUser 0 ''ghost'' ''x'' ''x@example.org'')\<lparr>TotalUploads := 30\<rparr>,
                1 := (NewUser 0 ''y'' ''y'' ''y@example.org'')\<lparr>TotalDownloads := 50\<rparr>),
      next_addr = 2\<rparr>"

text \<open>A user is created, uploads once and downloads three times.\<close>

definition example_run :: Store where
  "example_run =
     snd (RecordDownload
       (snd (RecordDownload
         (snd (RecordDownload
           (snd (RecordUpload
             (snd (CreateUser NewMemoryStore ''u1'' 5 ''alice'' ''alice@example.org'' ''secret''))
             ''u1''))
           ''u1''))
         ''u1''))
       ''u1'')"



section \<open>Facts about floating-point numbers\<close>

lemma bitlen_numeral:
  "bitlen (numeral k) = (if (0::int) < numeral k then bitlen (numeral k div 2) + 1 else 0)"
  by (rule compute_bitlen)

lemma bitlen_one: "bitlen 1 = 1"
  using compute_bitlen [of 1] by simp

lemmas float_eval = round64_def ilog2_def pow2_def round_even_def Let_def bitlen_numeral bitlen_one
  float64_of_int_def int_of_float64_def trunc_def signed_inf_def fle_def

text \<open>
  Some values: the \<^verbatim>\<open>float64\<close> nearest to 0.1; the sum of the \<^verbatim>\<open>float64\<close> values nearest to 0.1
  and 0.2, which is above the one nearest to 0.3; ten times the \<^verbatim>\<open>float64\<close> nearest to 0.7,
  a tie that goes to 7; and an odd integer above \<open>2 ^ 53\<close>.
\<close>

lemma round64_examples:
  "round64 (1 / 10) = Finite (3602879701896397 / 2 ^ 55)"
  "round64 (3602879701896397 / 2 ^ 55 + 3602879701896397 / 2 ^ 54)
     = Finite (5404319552844596 / 2 ^ 54)"
  "round64 (6305039478318694 / 2 ^ 53 * 10) = Finite 7"
  "round64 9007199254740993 = Finite 9007199254740992"
  by (simp_all add: float_eval)

lemma fless_irrefl: "\<not> fless a a"
  by (cases a) simp_all

lemma fless_asym: "fless a b \<Longrightarrow> \<not> fless b a"
  by (cases a; cases b) simp_all

lemma fless_trans: "fless a b \<Longrightarrow> fless b c \<Longrightarrow> fless a c"
  by (cases a; cases b; cases c) simp_all

lemma round_even_near: "\<bar>real_of_int (round_even t) - t\<bar> \<le> 1 / 2"
  unfolding round_even_def Let_def by (auto simp: abs_le_iff)

lemma ilog2_bounds:
  assumes "0 < x"
  shows "pow2 (ilog2 x) \<le> x \<and> x < pow2 (ilog2 x + 1)"
proof (cases "1 \<le> x")
  case True
  define m where "m = \<lfloor>x\<rfloor>"
  have m1: "0 < m" using True by (simp add: m_def)
  have b: "2 ^ nat (bitlen m - 1) \<le> m" "m < 2 ^ nat (bitlen m)"
    using bitlen_bounds [OF m1] by simp_all
  have k: "1 \<le> bitlen m" using m1 by (simp add: bitlen_alt_def)
  have "2 ^ nat (bitlen m - 1) \<le> real_of_int m" using b(1) by simp
  moreover have "real_of_int m \<le> x" by (simp add: m_def)
  ultimately have lo: "2 ^ nat (bitlen m - 1) \<le> x" by (rule order_trans)
  have i: "m + 1 \<le> 2 ^ nat (bitlen m)" using b(2) by simp
  have "x < real_of_int (m + 1)" unfolding m_def by linarith
  also have "\<dots> \<le> real_of_int (2 ^ nat (bitlen m))" using i by (simp only: of_int_le_iff)
  also have "\<dots> = 2 ^ nat (bitlen m)" by simp
  finally have hi: "x < 2 ^ nat (bitlen m)" .
  show ?thesis using True lo hi k by (simp add: ilog2_def pow2_def m_def)
next
  case False
  define c where "c = \<lceil>1 / x\<rceil>"
  define k where "k = bitlen (c - 1)"
  have y1: "1 < 1 / x" using False assms by simp
  then have c2: "2 \<le> c" unfolding c_def by (simp add: le_ceiling_iff)
  then have c1: "0 < c - 1" by simp
  have b: "2 ^ nat (k - 1) \<le> c - 1" "c - 1 < 2 ^ nat k"
    using bitlen_bounds [OF c1] by (simp_all add: k_def)
  have k1: "1 \<le> k" using c1 by (simp add: k_def bitlen_alt_def)
  have "c \<le> 2 ^ nat k" using b(2) by simp
  then have "real_of_int c \<le> 2 ^ nat k" by simp
  moreover have "1 / x \<le> real_of_int c" by (simp add: c_def)
  ultimately have "1 / x \<le> 2 ^ nat k" by (rule order_trans [rotated])
  then have lo: "1 / 2 ^ nat k \<le> x" using assms by (simp add: field_simps)
  have "(2::real) ^ nat (k - 1) = real_of_int (2 ^ nat (k - 1))" by simp
  also have "\<dots> \<le> real_of_int (c - 1)" using b(1) by (simp only: of_int_le_iff)
  also have "\<dots> < 1 / x" unfolding c_def by linarith
  finally have "2 ^ nat (k - 1) < 1 / x" .
  then have hi: "x < 1 / 2 ^ nat (k - 1)" using assms by (simp add: field_simps)
  have il: "ilog2 x = - k" using False by (simp add: ilog2_def k_def c_def)
  have p1: "pow2 (- k) = 1 / 2 ^ nat k" using k1 by (simp add: pow2_def)
  have p2: "pow2 (- k + 1) = 1 / 2 ^ nat (k - 1)"
    using k1 by (cases "k = 1") (simp_all add: pow2_def)
  show ?thesis unfolding il p1 p2 using lo hi by simp
qed

lemma pow2_pos: "0 < pow2 e"
  by (simp add: pow2_def)

text \<open>
  A finite result of the rounding is an integer multiple of the \<open>ulp\<close> of its argument and
  at most half an \<open>ulp\<close> away from the argument.
\<close>

lemma round64_near:
  assumes "x \<noteq> 0" and "round64 x = Finite y"
  shows "\<exists>m. y = real_of_int m * pow2 (max (ilog2 \<bar>x\<bar>) (- 1022) - 52) \<and>
             \<bar>y - x\<bar> \<le> pow2 (max (ilog2 \<bar>x\<bar>) (- 1022) - 52) / 2"
proof -
  define u where "u = pow2 (max (ilog2 \<bar>x\<bar>) (- 1022) - 52)"
  define m where "m = round_even (x / u)"
  have u0: "0 < u" unfolding u_def by (rule pow2_pos)
  have y: "y = real_of_int m * u"
    using assms unfolding round64_def Let_def u_def [symmetric] m_def [symmetric]
    by (simp split: if_splits)
  have "\<bar>real_of_int m - x / u\<bar> \<le> 1 / 2" unfolding m_def by (rule round_even_near)
  then have "\<bar>real_of_int m - x / u\<bar> * u \<le> 1 / 2 * u"
    using u0 by (intro mult_right_mono) simp_all
  moreover have "\<bar>real_of_int m - x / u\<bar> * u = \<bar>real_of_int m * u - x\<bar>"
    using u0 by (simp add: abs_mult_pos [symmetric] field_simps flip: abs_mult_pos)
  ultimately have "\<bar>y - x\<bar> \<le> u / 2" using y by simp
  then show ?thesis using y unfolding u_def by blast
qed

lemma round_even_le: "x \<le> of_int b \<Longrightarrow> round_even x \<le> b"
  unfolding round_even_def Let_def by (auto simp: floor_le_iff) 

lemma round_even_ge: "of_int a \<le> x \<Longrightarrow> a \<le> round_even x"
  unfolding round_even_def Let_def by (auto simp: le_floor_iff) linarith+

lemma ilog2_le_52:
  assumes "0 < x" "x < 2 ^ 53"
  shows "ilog2 x \<le> 52"
proof (cases "1 \<le> x")
  case True
  have "\<lfloor>x\<rfloor> < 2 ^ 53" using assms(2) by (simp add: floor_less_iff)
  then have "bitlen \<lfloor>x\<rfloor> \<le> 53" by (simp add: bitlen_le_iff_power)
  then show ?thesis using True by (simp add: ilog2_def)
next
  case False
  then show ?thesis using bitlen_nonneg [of "\<lceil>1 / x\<rceil> - 1"] by (simp add: ilog2_def)
qed

text \<open>
  Rounding keeps a number between the integers that bound it, so that an integer below
  \<open>2 ^ 53\<close> in absolute value is a \<^verbatim>\<open>float64\<close>.
\<close>

lemma round64_bounds:
  assumes a: "of_int a \<le> x" and b: "x \<le> of_int b" and x: "\<bar>x\<bar> < 2 ^ 53"
  shows "\<exists>y. round64 x = Finite y \<and> of_int a \<le> y \<and> y \<le> of_int b"
proof (cases "x = 0")
  case True
  then show ?thesis using a b by (simp add: round64_def)
next
  case False
  define e where "e = max (ilog2 \<bar>x\<bar>) (- 1022)"
  define k where "k = nat (52 - e)"
  define N where "N = round_even (x * 2 ^ k)"
  have "ilog2 \<bar>x\<bar> \<le> 52" using False x by (intro ilog2_le_52) simp_all
  then have e52: "e \<le> 52" by (simp add: e_def)
  have ulp: "pow2 (e - 52) = 1 / 2 ^ k"
    using e52 by (cases "e = 52") (simp_all add: pow2_def k_def)
  have y: "of_int (round_even (x / pow2 (e - 52))) * pow2 (e - 52) = of_int N / 2 ^ k"
    by (simp add: ulp N_def)
  have bnd: "of_int c \<le> real_of_int N / 2 ^ k" if "of_int c \<le> x" for c
  proof -
    have "real_of_int (c * 2 ^ k) \<le> x * 2 ^ k" using that by simp
    then have "c * 2 ^ k \<le> N" unfolding N_def by (rule round_even_ge)
    then have "real_of_int (c * 2 ^ k) \<le> real_of_int N" by (simp only: of_int_le_iff)
    then show ?thesis by (simp add: field_simps)
  qed
  have bnd': "real_of_int N / 2 ^ k \<le> of_int c" if "x \<le> of_int c" for c
  proof -
    have "x * 2 ^ k \<le> real_of_int (c * 2 ^ k)" using that by simp
    then have "N \<le> c * 2 ^ k" unfolding N_def by (rule round_even_le)
    then have "real_of_int N \<le> real_of_int (c * 2 ^ k)" by (simp only: of_int_le_iff)
    then show ?thesis by (simp add: field_simps)
  qed
  have x1: "real_of_int (- (2 ^ 53)) \<le> x" and x2: "x \<le> real_of_int (2 ^ 53)"
    using x by simp_all
  have "real_of_int (- (2 ^ 53)) \<le> real_of_int N / 2 ^ k" "real_of_int N / 2 ^ k \<le> real_of_int (2 ^ 53)"
    using bnd [OF x1] bnd' [OF x2] by blast+
  then have lo: "- (2 ^ 53) \<le> real_of_int N / 2 ^ k" and hi: "real_of_int N / 2 ^ k \<le> 2 ^ 53"
    by simp_all
  have "(2::real) ^ 53 < 2 ^ 1024" by simp
  then have f1: "\<not> 2 ^ 1024 \<le> real_of_int N / 2 ^ k" and f2: "\<not> real_of_int N / 2 ^ k \<le> - (2 ^ 1024)"
    using lo hi by linarith+
  have "round64 x = Finite (of_int N / 2 ^ k)"
    using False f1 f2 unfolding round64_def Let_def e_def [symmetric] y by simp
  then show ?thesis using bnd [OF a] bnd' [OF b] by simp
qed

lemma round64_of_int:
  assumes "\<bar>n\<bar> < 2 ^ 53"
  shows "round64 (of_int n) = Finite (of_int n)"
proof -
  have "\<bar>real_of_int n\<bar> < 2 ^ 53" using assms by (simp flip: of_int_abs)
  then obtain y where "round64 (of_int n) = Finite y" "of_int n \<le> y" "y \<le> of_int n"
    using round64_bounds [of n "of_int n" n] by auto
  then show ?thesis by simp
qed

lemma float64_of_int_exact:
  "\<bar>sint n\<bar> < 2 ^ 53 \<Longrightarrow> float64_of_int n = Finite (of_int (sint n))"
  unfolding float64_of_int_def by (rule round64_of_int)

lemma float64_of_int_10: "float64_of_int 10 = Finite 10"
  by (simp add: float_eval)

section \<open>Facts about the 64-bit integers\<close>

lemmas go_consts = ContributorThreshold_def NeutralThreshold_def LowReputation_def
  UploadWeight_def DownloadWeight_def RatingWeight_def

lemmas class_names = ClassContributor_def ClassNeutral_def ClassLeecher_def

lemma sint_in_range:
  "- (2 ^ 63) \<le> k \<Longrightarrow> k < 2 ^ 63 \<Longrightarrow> sint (word_of_int k :: go_int) = k"
  by (simp add: sint_sbintrunc' signed_take_bit_int_eq_self)

lemma score_word:
  "(u::go_int) * 2 - d * 1 + word_of_int t = word_of_int (sint u * 2 - sint d + t)"
  by (simp add: wi_hom_syms)

lemma trunc_bounds:
  "0 \<le> p \<Longrightarrow> p \<le> 50 \<Longrightarrow> 0 \<le> trunc p \<and> trunc p \<le> 50"
  by (auto simp: trunc_def le_floor_iff floor_le_iff)

section \<open>The reputation score\<close>

text \<open>
  The rating term is the truncated \<^verbatim>\<open>float64\<close> product of the average rating and 10: the
  real product rounded to the nearest \<^verbatim>\<open>float64\<close>. For a rating in \<open>[0, 5]\<close> the product is
  a finite number in \<open>[0, 50]\<close>.
\<close>

lemma rating_product:
  "fmul (Finite r) (float64_of_int RatingWeight) = round64 (r * 10)"
  by (simp add: RatingWeight_def float64_of_int_10)

lemma rating_product_bounds:
  assumes "0 \<le> r" and "r \<le> 5"
  shows "\<exists>p. round64 (r * 10) = Finite p \<and> 0 \<le> p \<and> p \<le> 50"
proof -
  have "real_of_int 0 \<le> r * 10" "r * 10 \<le> real_of_int 50" "\<bar>r * 10\<bar> < 2 ^ 53"
    using assms by simp_all
  then show ?thesis using round64_bounds [of 0 "r * 10" 50] by simp
qed

lemma CalculateReputation_sum:
  assumes p: "round64 (r * 10) = Finite p"
    and t: "- (2 ^ 63) \<le> trunc p" "trunc p < 2 ^ 63"
    and s: "- (2 ^ 63) \<le> sint uploads * 2 - sint downloads + trunc p"
      "sint uploads * 2 - sint downloads + trunc p < 2 ^ 63"
  shows "sint (CalculateReputation uploads downloads (Finite r))
           = max (- 100) (sint uploads * 2 - sint downloads + trunc p)"
proof -
  have b: "int_of_float64 (fmul (Finite r) (float64_of_int RatingWeight)) = word_of_int (trunc p)"
    unfolding rating_product p using t by (simp add: int_of_float64_def)
  have sc: "sint (uploads * 2 - downloads * 1 + word_of_int (trunc p) :: go_int)
      = sint uploads * 2 - sint downloads + trunc p"
    unfolding score_word using s by (rule sint_in_range)
  show ?thesis
    unfolding CalculateReputation_def b using sc
    by (simp add: UploadWeight_def DownloadWeight_def LowReputation_def Let_def word_sless_alt max_def)
qed

lemma CalculateReputation_floor:
  "- 100 \<le> sint (CalculateReputation uploads downloads averageRating)"
  by (simp add: CalculateReputation_def LowReputation_def Let_def word_sless_alt)

text \<open>
  For all arguments the score is the sum of the three terms reduced to 64 bits (two's
  complement), with the floor applied after the reduction.
\<close>

lemma CalculateReputation_wraps:
  "sint (CalculateReputation uploads downloads averageRating)
     = max (- 100) (signed_take_bit 63
         (sint uploads * 2 - sint downloads
            + sint (int_of_float64 (fmul averageRating (float64_of_int RatingWeight)))))"
proof -
  define b where "b = int_of_float64 (fmul averageRating (float64_of_int RatingWeight))"
  have "sint (word_of_int (sint uploads * 2 - sint downloads + sint b) :: go_int)
      = signed_take_bit 63 (sint uploads * 2 - sint downloads + sint b)"
    by (simp only: sint_sbintrunc') simp
  moreover have "uploads * 2 - downloads * 1 + b
      = word_of_int (sint uploads * 2 - sint downloads + sint b)"
    using score_word [of uploads downloads "sint b"] by simp
  ultimately have "sint (uploads * 2 - downloads * 1 + b)
      = signed_take_bit 63 (sint uploads * 2 - sint downloads + sint b)"
    by simp
  then show ?thesis
    unfolding CalculateReputation_def b_def [symmetric]
    by (simp add: UploadWeight_def DownloadWeight_def LowReputation_def Let_def word_sless_alt max_def)
qed

text \<open>
  The product is rounded before it is truncated: the \<^verbatim>\<open>float64\<close> nearest to 0.3 is a little
  below it, its real product with 10 is below 3, and the \<^verbatim>\<open>float64\<close> product is 3.
\<close>

lemma CalculateReputation_rounds_product:
  "round64 (3 / 10) = Finite (5404319552844595 / 2 ^ 54) \<and>
   sint (CalculateReputation 0 0 (Finite (5404319552844595 / 2 ^ 54))) = 3 \<and>
   reputation_formula 0 0 (5404319552844595 / 2 ^ 54) = 2"
proof -
  have 1: "round64 (3 / 10) = Finite (5404319552844595 / 2 ^ 54)"
    by (simp add: float_eval)
  have 2: "round64 (5404319552844595 / 2 ^ 54 * 10) = Finite 3"
    by (simp add: float_eval)
  have 3: "sint (CalculateReputation 0 0 (Finite (5404319552844595 / 2 ^ 54))) = 3"
    using CalculateReputation_sum [OF 2, of 0 0] by (simp add: trunc_def)
  have 4: "reputation_formula 0 0 (5404319552844595 / 2 ^ 54) = 2"
    by (simp add: reputation_formula_def trunc_def)
  show ?thesis using 1 3 4 by (intro conjI)
qed

text \<open>
  C1, as the claim states it, fails where the 64-bit arithmetic overflows: for
  \<open>uploads = 2 ^ 62\<close> the product \<open>uploads * 2\<close> wraps around to \<open>- 2 ^ 63\<close>, and the
  function returns the floor \<open>-100\<close>, while the formula over the integers gives \<open>2 ^ 63\<close>.
\<close>

theorem CalculateReputation_overflow_counterexample:
  "(0 :: go_int) \<le>s 4611686018427387904 \<and>
   sint (CalculateReputation 4611686018427387904 0 (Finite 0)) = - 100 \<and>
   reputation_formula (sint (4611686018427387904 :: go_int)) (sint (0 :: go_int)) 0
     = 9223372036854775808"
  by (simp add: CalculateReputation_def go_consts float_eval reputation_formula_def word_sle_eq)

text \<open>
  C1 (amended): the score is at least \<open>-100\<close> for all arguments. For \<open>uploads \<ge> 0\<close>,
  \<open>downloads \<ge> 0\<close> and an average rating \<open>r\<close> in \<open>[0, 5]\<close>, the \<^verbatim>\<open>float64\<close> product of \<open>r\<close> and 10
  (the real product rounded to the nearest \<^verbatim>\<open>float64\<close>) is a number \<open>p\<close> in \<open>[0, 50]\<close>, and
  whenever \<open>uploads * 2 - downloads + trunc p\<close> is below \<open>2 ^ 63\<close> the score is
  \<open>max (-100) (uploads * 2 - downloads * 1 + trunc p)\<close>, with the rating term truncated
  towards zero and no upper clamp; where the product needs no rounding this is the formula
  of the specification.
\<close>

theorem CalculateReputation_formula:
  "- 100 \<le> sint (CalculateReputation uploads downloads averageRating) \<and>
   (0 \<le> r \<and> r \<le> 5 \<longrightarrow> (\<exists>p. round64 (r * 10) = Finite p \<and> 0 \<le> p \<and> p \<le> 50)) \<and>
   (0 \<le>s uploads \<and> 0 \<le>s downloads \<and> 0 \<le> r \<and> r \<le> 5 \<and> round64 (r * 10) = Finite p
      \<and> sint uploads * 2 - sint downloads + trunc p < 2 ^ 63
    \<longrightarrow> sint (CalculateReputation uploads downloads (Finite r))
          = max (- 100) (sint uploads * 2 - sint downloads * 1 + trunc p)) \<and>
   (0 \<le>s uploads \<and> 0 \<le>s downloads \<and> 0 \<le> r \<and> r \<le> 5 \<and> round64 (r * 10) = Finite (r * 10)
      \<and> sint uploads * 2 - sint downloads + trunc (r * 10) < 2 ^ 63
    \<longrightarrow> sint (CalculateReputation uploads downloads (Finite r))
          = reputation_formula (sint uploads) (sint downloads) r)"
proof -
  have main: "sint (CalculateReputation uploads downloads (Finite r))
          = max (- 100) (sint uploads * 2 - sint downloads + trunc q)"
    if u: "0 \<le>s uploads" and d: "0 \<le>s downloads" and r: "0 \<le> r" "r \<le> 5"
      and q: "round64 (r * 10) = Finite q"
      and s: "sint uploads * 2 - sint downloads + trunc q < 2 ^ 63" for q
  proof -
    obtain q' where q': "round64 (r * 10) = Finite q'" "0 \<le> q'" "q' \<le> 50"
      using rating_product_bounds [OF r] by blast
    then have "q' = q" using q by simp
    then have tb: "0 \<le> trunc q" "trunc q \<le> 50" using trunc_bounds q' by simp_all
    have u0: "0 \<le> sint uploads" and d0: "0 \<le> sint downloads"
      using u d by (simp_all add: word_sle_eq)
    have dlt: "sint downloads < 2 ^ 63" using sint_lt [of downloads] by simp
    have lo: "- (2 ^ 63) \<le> sint uploads * 2 - sint downloads + trunc q"
      using u0 d0 dlt tb by linarith
    have t1: "- (2 ^ 63) \<le> trunc q" using tb by simp
    have t2: "trunc q < 2 ^ 63" using tb by simp
    show ?thesis using q t1 t2 lo s by (rule CalculateReputation_sum)
  qed
  have a: "- 100 \<le> sint (CalculateReputation uploads downloads averageRating)"
    by (rule CalculateReputation_floor)
  have b: "0 \<le> r \<and> r \<le> 5 \<longrightarrow> (\<exists>p. round64 (r * 10) = Finite p \<and> 0 \<le> p \<and> p \<le> 50)"
    using rating_product_bounds by blast
  have c: "0 \<le>s uploads \<and> 0 \<le>s downloads \<and> 0 \<le> r \<and> r \<le> 5 \<and> round64 (r * 10) = Finite p
      \<and> sint uploads * 2 - sint downloads + trunc p < 2 ^ 63
    \<longrightarrow> sint (CalculateReputation uploads downloads (Finite r))
          = max (- 100) (sint uploads * 2 - sint downloads * 1 + trunc p)"
    using main [of p] by simp
  have d: "0 \<le>s uploads \<and> 0 \<le>s downloads \<and> 0 \<le> r \<and> r \<le> 5 \<and> round64 (r * 10) = Finite (r * 10)
      \<and> sint uploads * 2 - sint downloads + trunc (r * 10) < 2 ^ 63
    \<longrightarrow> sint (CalculateReputation uploads downloads (Finite r))
          = reputation_formula (sint uploads) (sint downloads) r"
    using main [of "r * 10"] by (simp add: reputation_formula_def)
  show ?thesis using a b c d by (intro conjI)
qed

theorem CalculateReputation_formula_witness:
  "sint (CalculateReputation 50 30 (Finite 4.5)) = 115 \<and>
   sint (CalculateReputation 5 50 (Finite 2.0)) = - 20 \<and>
   sint (CalculateReputation 0 0 (Finite 0)) = 0 \<and>
   sint (CalculateReputation 0 0 (Finite 4.59375)) = 45 \<and>
   sint (CalculateReputation 0 0 (Finite (5404319552844595 / 2 ^ 54))) = 3"
proof -
  have r1: "round64 (4.5 * 10) = Finite 45" by (simp add: float_eval)
  have r2: "round64 (2.0 * 10) = Finite 20" by (simp add: float_eval)
  have r3: "round64 (0 * 10) = Finite 0" by (simp add: float_eval)
  have r4: "round64 (4.59375 * 10) = Finite 45.9375" by (simp add: float_eval)
  have r5: "round64 (5404319552844595 / 2 ^ 54 * 10) = Finite 3" by (simp add: float_eval)
  note t = CalculateReputation_formula [THEN conjunct2, THEN conjunct2, THEN conjunct1]
  have a: "sint (CalculateReputation 50 30 (Finite 4.5)) = 115"
    using t [of 50 30 "4.5" 45] r1 by (simp add: word_sle_eq trunc_def)
  have b: "sint (CalculateReputation 5 50 (Finite 2.0)) = - 20"
    using t [of 5 50 "2.0" 20] r2 by (simp add: word_sle_eq trunc_def)
  have c: "sint (CalculateReputation 0 0 (Finite 0)) = 0"
    using t [of 0 0 0 0] r3 by (simp add: word_sle_eq trunc_def)
  have d: "sint (CalculateReputation 0 0 (Finite 4.59375)) = 45"
    using t [of 0 0 "4.59375" "45.9375"] r4 by (simp add: word_sle_eq trunc_def)
  have e: "sint (CalculateReputation 0 0 (Finite (5404319552844595 / 2 ^ 54))) = 3"
    using t [of 0 0 "5404319552844595 / 2 ^ 54" 3] r5 by (simp add: word_sle_eq trunc_def)
  show ?thesis using a b c d e by (intro conjI)
qed

section \<open>Classification\<close>

lemma GetClassification_eq: "GetClassification score = GetClassificationForScore score"
  by (simp add: GetClassification_def GetClassificationForScore_def)

text \<open>
  C2: for every score, the classifier returns Contributor if the score is above 50,
  otherwise Neutral if it is at least 0, otherwise Leecher; so 51 is a Contributor,
  50 and 0 are Neutral and -1 is a Leecher. Both classifiers of the program
  (\<^verbatim>\<open>services.GetClassificationForScore\<close> and \<^verbatim>\<open>models.GetClassification\<close>) do so.
\<close>

theorem GetClassificationForScore_thresholds:
  "GetClassificationForScore score =
     (if 50 < sint score then ''Contributor''
      else if 0 \<le> sint score then ''Neutral''
      else ''Leecher'') \<and>
   GetClassification score = GetClassificationForScore score \<and>
   GetClassificationForScore 51 = ''Contributor'' \<and>
   GetClassificationForScore 50 = ''Neutral'' \<and>
   GetClassificationForScore 0 = ''Neutral'' \<and>
   GetClassificationForScore (- 1) = ''Leecher''"
  by (simp add: GetClassification_def GetClassificationForScore_def go_consts class_names
      word_sless_alt word_sle_eq)

section \<open>Pagination\<close>

lemma take_drop_nth_range:
  "b \<le> length xs \<Longrightarrow> take (b - a) (drop a xs) = map (nth xs) [a ..< b]"
  by (auto simp: list_eq_iff_nth_eq)

lemma window_take_drop:
  assumes "0 \<le> offset" "0 \<le> psize"
  shows "window xs offset psize = take (nat psize) (drop (nat offset) xs)"
proof (cases "int (length xs) \<le> offset")
  case True
  then show ?thesis using assms by (simp add: window_def)
next
  case False
  let ?b = "nat (min (offset + psize) (int (length xs)))"
  have b: "?b \<le> length xs" by simp
  have "take (nat psize) (drop (nat offset) xs) = take (?b - nat offset) (drop (nat offset) xs)"
    using assms False by (auto simp: min_def nat_diff_distrib' nat_add_distrib)
  also have "\<dots> = map (nth xs) [nat offset ..< ?b]"
    using b by (rule take_drop_nth_range)
  finally show ?thesis using False by (simp add: window_def)
qed

lemma sint_len:
  assumes a: "length xs < 2 ^ 63"
  shows "sint (len xs) = int (length xs)"
proof -
  have "len xs = (word_of_int (int (length xs)) :: go_int)"
    by (simp add: len_def)
  moreover have "int (length xs) < 2 ^ 63" using a by simp
  moreover have "- (2 ^ 63) \<le> int (length xs)" by simp
  ultimately show ?thesis
    using sint_in_range [of "int (length xs)"] by presburger
qed

lemma offset_word:
  "((pw::go_int) - 1) * sw = word_of_int ((sint pw - 1) * sint sw)"
  by (simp add: wi_hom_syms)

lemma end_word:
  "((pw::go_int) - 1) * sw + sw = word_of_int ((sint pw - 1) * sint sw + sint sw)"
  by (simp add: wi_hom_syms)

lemma size_le_offset: "1 \<le> P - 1 \<Longrightarrow> 1 \<le> S \<Longrightarrow> (S::int) \<le> (P - 1) * S"
  using mult_right_mono [of 1 "P - 1" S] by simp

lemma paginate_window:
  assumes n: "length results < 2 ^ 62"
    and off: "(effective_page page - 1) * effective_size psize < 2 ^ 63"
  shows "paginate results page psize =
           Inr (window results ((effective_page page - 1) * effective_size psize)
                  (effective_size psize))"
proof -
  define P where "P = effective_page page"
  define S where "S = effective_size psize"
  define Off where "Off = (P - 1) * S"
  define N where "N = int (length results)"
  define pw :: go_int where "pw = (if page <s 1 then 1 else page)"
  define sw :: go_int where "sw = (if psize <s 1 then 10 else psize)"
  have pw: "sint pw = P"
    by (simp add: pw_def P_def effective_page_def word_sless_alt)
  have sw: "sint sw = S"
    by (simp add: sw_def S_def effective_size_def word_sless_alt)
  have P1: "1 \<le> P" by (simp add: P_def effective_page_def)
  have S1: "1 \<le> S" by (simp add: S_def effective_size_def)
  have Slt: "S < 2 ^ 63" using sint_lt [of sw] sw by simp
  have O0: "0 \<le> Off" using P1 S1 by (simp add: Off_def)
  have Olt: "Off < 2 ^ 63" using off by (simp add: Off_def P_def S_def)
  have N62: "N < 2 ^ 62" using n by (simp add: N_def)
  have n63: "length results < 2 ^ 63" using n by simp
  have lenw: "sint (len results) = N"
    unfolding N_def using n63 by (rule sint_len)
  have O63: "- (2 ^ 63) \<le> Off" using O0 by simp
  have ow: "sint ((pw - 1) * sw) = Off"
    unfolding offset_word pw sw Off_def [symmetric] using O63 Olt by (rule sint_in_range)
  show ?thesis
  proof (cases "N \<le> Off")
    case True
    then have "len results \<le>s (pw - 1) * sw"
      by (simp add: word_sle_eq lenw ow)
    then have "paginate results page psize = Inr []"
      by (simp add: paginate_def Let_def pw_def sw_def)
    moreover have "window results Off S = []"
      using True by (simp add: window_def N_def)
    ultimately show ?thesis by (simp add: Off_def P_def S_def)
  next
    case False
    then have ON: "Off < N" by simp
    have OS: "Off + S < 2 ^ 63"
    proof (cases "P = 1")
      case True
      then show ?thesis using Slt by (simp add: Off_def)
    next
      case False
      then have "1 \<le> P - 1" using P1 by simp
      then have "S \<le> Off" unfolding Off_def using S1 by (rule size_le_offset)
      then show ?thesis using ON N62 by simp
    qed
    have OS63: "- (2 ^ 63) \<le> Off + S" using O0 S1 by simp
    have ew: "sint ((pw - 1) * sw + sw) = Off + S"
      unfolding end_word pw sw Off_def [symmetric] using OS63 OS by (rule sint_in_range)
    define e where "e = (if len results <s (pw - 1) * sw + sw then len results else (pw - 1) * sw + sw)"
    have ev: "sint e = min (Off + S) N"
      by (simp add: e_def word_sless_alt lenw ew min_def)
    have nle: "\<not> len results \<le>s (pw - 1) * sw"
      using ON by (simp add: word_sle_eq lenw ow)
    have pg: "paginate results page psize = slice results ((pw - 1) * sw) e"
      using nle by (simp add: paginate_def Let_def pw_def sw_def e_def)
    have c1: "0 \<le>s (pw - 1) * sw" using O0 by (simp add: word_sle_eq ow)
    have c2: "(pw - 1) * sw \<le>s e" using S1 ON by (simp add: word_sle_eq ow ev)
    have c3: "e \<le>s len results" by (simp add: word_sle_eq lenw ev)
    have "slice results ((pw - 1) * sw) e = Inr (take (nat (min (Off + S) N) - nat Off) (drop (nat Off) results))"
      using c1 c2 c3 by (simp add: slice_def ow ev)
    also have "take (nat (min (Off + S) N) - nat Off) (drop (nat Off) results) = map (nth results) [nat Off ..< nat (min (Off + S) N)]"
      by (rule take_drop_nth_range) (simp add: N_def)
    finally show ?thesis
      using pg ON by (simp add: window_def Off_def P_def S_def N_def)
  qed
qed

lemma concat_pages_Inr: "concat_pages (map (\<lambda>p. Inr (f p)) ps) = Inr (concat (map f ps))"
  by (induction ps) simp_all

lemma concat_chunks:
  "concat (map (\<lambda>p. take s (drop ((p - 1) * s) xs)) [1 ..< Suc n]) = take (n * s) xs"
proof (induction n)
  case 0
  show ?case by simp
next
  case (Suc n)
  have "take (n * s) xs @ take s (drop (n * s) xs) = take (n * s + s) xs"
    by (simp add: take_add)
  then show ?case using Suc by (simp add: add.commute)
qed

lemma sint_of_nat:
  assumes "p < 2 ^ 63" shows "sint (of_nat p :: go_int) = int p"
proof -
  have "(of_nat p :: go_int) = word_of_int (int p)" by simp
  moreover have "int p < 2 ^ 63" using assms by simp
  moreover have "- (2 ^ 63) \<le> int p" by simp
  ultimately show ?thesis using sint_in_range [of "int p"] by presburger
qed

lemma paginate_page:
  assumes s: "1 \<le>s psize" and n: "length results < 2 ^ 62"
    and p: "1 \<le> p" and b: "p * nat (sint psize) < 2 ^ 63"
  shows "paginate results (of_nat p) psize
           = Inr (take (nat (sint psize)) (drop ((p - 1) * nat (sint psize)) results))"
proof -
  let ?S = "nat (sint psize)"
  have S1: "1 \<le> sint psize" using s by (simp add: word_sle_eq)
  then have S1n: "1 \<le> ?S" by simp
  have "p \<le> p * ?S" using S1n by simp
  then have p63: "p < 2 ^ 63" using b by (rule order.strict_trans1)
  have ep: "effective_page (of_nat p) = int p"
    using p by (simp add: effective_page_def sint_of_nat [OF p63])
  have es: "effective_size psize = sint psize"
    using S1 by (simp add: effective_size_def)
  have "(p - 1) * ?S \<le> p * ?S" by (intro mult_le_mono) simp_all
  then have "(p - 1) * ?S < 2 ^ 63" using b by (rule order.strict_trans1)
  then have "int ((p - 1) * ?S) < int (2 ^ 63)" by (simp only: of_nat_less_iff)
  then have "int ((p - 1) * ?S) < 2 ^ 63" by simp
  moreover have "int ((p - 1) * ?S) = (int p - 1) * sint psize"
    using p S1 by (simp add: of_nat_diff)
  ultimately have off: "(effective_page (of_nat p) - 1) * effective_size psize < 2 ^ 63"
    by (simp add: ep es)
  have "paginate results (of_nat p) psize = Inr (window results ((int p - 1) * sint psize) (sint psize))"
    using paginate_window [OF n off] by (simp add: ep es)
  also have "window results ((int p - 1) * sint psize) (sint psize)
      = take ?S (drop (nat ((int p - 1) * sint psize)) results)"
    using p S1 by (intro window_take_drop) simp_all
  also have "nat ((int p - 1) * sint psize) = (p - 1) * ?S"
    using p S1 by (simp add: nat_mult_distrib nat_diff_distrib')
  finally show ?thesis .
qed

lemma all_pages_covers:
  assumes s: "1 \<le>s psize" and len: "length results < 2 ^ 62"
    and cover: "length results \<le> n * nat (sint psize)" and b: "n * nat (sint psize) < 2 ^ 63"
  shows "all_pages results psize n = Inr results"
proof -
  let ?S = "nat (sint psize)"
  have eq: "map (\<lambda>p. paginate results (of_nat p) psize) [1 ..< Suc n]
      = map (\<lambda>p. Inr (take ?S (drop ((p - 1) * ?S) results))) [1 ..< Suc n]"
  proof (rule map_cong [OF refl])
    fix p assume "p \<in> set [1 ..< Suc n]"
    then have p: "1 \<le> p" and pn: "p \<le> n" by auto
    have "p * ?S \<le> n * ?S" using pn by (intro mult_le_mono) simp_all
    then have "p * ?S < 2 ^ 63" using b by (rule order.strict_trans1)
    then show "paginate results (of_nat p) psize = Inr (take ?S (drop ((p - 1) * ?S) results))"
      using paginate_page [OF s len p] by simp
  qed
  have "all_pages results psize n
      = concat_pages (map (\<lambda>p. Inr (take ?S (drop ((p - 1) * ?S) results))) [1 ..< Suc n])"
    by (simp only: all_pages_def eq)
  also have "\<dots> = Inr (concat (map (\<lambda>p. take ?S (drop ((p - 1) * ?S) results)) [1 ..< Suc n]))"
    by (rule concat_pages_Inr)
  also have "concat (map (\<lambda>p. take ?S (drop ((p - 1) * ?S) results)) [1 ..< Suc n])
      = take (n * ?S) results"
    by (rule concat_chunks)
  also have "take (n * ?S) results = results"
    using cover by simp
  finally show ?thesis .
qed

lemma pages_needed_bounds:
  assumes s: "1 \<le>s psize" and len: "length results < 2 ^ 62"
  shows "length results \<le> pages_needed results psize * nat (sint psize)
       \<and> pages_needed results psize * nat (sint psize) < 2 ^ 63"
proof -
  let ?S = "nat (sint psize)" and ?n = "length results"
  have S1: "1 \<le> ?S" using s by (simp add: word_sle_eq)
  have Slt: "?S < 2 ^ 63" using sint_lt [of psize] by (simp add: nat_less_iff)
  let ?k = "(?n + ?S - 1) div ?S"
  have up: "?k * ?S \<le> ?n + ?S - 1" by simp
  have md: "(?n + ?S - 1) mod ?S < ?S" using S1 by simp
  have "?n + ?S - 1 = ?k * ?S + (?n + ?S - 1) mod ?S" by simp
  then have "?n + ?S - 1 < ?k * ?S + ?S" using md by linarith
  then have lo: "?n \<le> ?k * ?S" using S1 by linarith
  have hi: "?k * ?S < 2 ^ 63"
  proof (cases "?n \<le> ?S")
    case True
    then have "?n + ?S - 1 < 2 * ?S" using S1 by linarith
    then have "?k < 2" using S1 by (simp add: div_less_iff_less_mult)
    then have "?k = 0 \<or> ?k = 1" by linarith
    then have "?k * ?S \<le> ?S" by auto
    then show ?thesis using Slt by linarith
  next
    case False
    then have "?n + ?S - 1 < 2 * ?n" by linarith
    moreover have "(2::nat) ^ 63 = 2 * 2 ^ 62" by simp
    ultimately show ?thesis using up len by linarith
  qed
  show ?thesis using lo hi by (simp add: pages_needed_def)
qed

text \<open>
  Where the offset overflows, the page need not be empty: with page 3 and the page size
  \<open>2 ^ 63 - 1\<close> the product wraps around to \<open>-2\<close>, which is below the length, and the slice
  expression panics.
\<close>

lemma paginate_overflow_panics:
  "paginate [1::nat, 2, 3] 3 9223372036854775807 = Inl (Panic ''slice bounds out of range'')"
  by (simp add: paginate_def slice_def len_def Let_def word_sless_alt word_sle_eq)

section \<open>The search\<close>

lemma Contains_sublist: "Contains s substr = sublist substr s"
  by (induction s) (auto simp: sublist_Cons_right)

lemma search_loop_append:
  "search_loop S all query filters acc = acc @ matches S all query filters"
  by (induction all arbitrary: acc)
     (auto simp: matches_def is_match_def to_result_def Let_def)

lemma search_loop_matches: "search_loop S all query filters [] = matches S all query filters"
  by (simp add: search_loop_append)

lemma length_matches: "length (matches S all query filters) \<le> length all"
  by (simp add: matches_def)

lemma length_map_filter: "length (List.map_filter f xs) \<le> length xs"
  by (simp add: map_filter_def)

lemma Search_unfold:
  "Search S Slice order resources query filters =
     (case paginate
             (sortResults Slice
                (matches S (List.map_filter resources order) (ToLower S (TrimSpace S query)) filters)
                (SortBy filters) (SortOrder filters))
             (SearchFilters.Page filters) (SearchFilters.PageSize filters) of
        Inl err \<Rightarrow> Inl err
      | Inr results \<Rightarrow>
          Inr \<lparr>Query = ToLower S (TrimSpace S query), Results = results,
               TotalCount = len (matches S (List.map_filter resources order)
                                   (ToLower S (TrimSpace S query)) filters),
               Page = SearchFilters.Page filters,
               PageSize = SearchFilters.PageSize filters\<rparr>)"
  if "permutes Slice"
proof -
  have len_eq: "length (Slice lt xs) = length xs" for lt and xs :: "SearchResult list"
    using that by (metis permutes_def size_mset)
  show ?thesis
    by (simp add: Search_def GetAll_def Let_def search_loop_matches sortResults_def len_def len_eq
        cong: sum.case_cong)
qed

lemma insert_left_mset: "mset (insert_left lt x ys) = add_mset x (mset ys)"
  by (induction ys) simp_all

lemma foldl_insert_left_mset:
  "mset (foldl (\<lambda>acc x. insert_left lt x acc) acc xs) = mset acc + mset xs"
  by (induction xs arbitrary: acc) (simp_all add: insert_left_mset)

lemma insertionSort_permutes: "permutes insertionSort"
  by (simp add: permutes_def insertionSort_def foldl_insert_left_mset)

lemma paginate_subset:
  "paginate xs page psize = Inr ys \<Longrightarrow> set ys \<subseteq> set xs"
  by (auto simp: paginate_def slice_def Let_def split: if_splits dest: in_set_takeD in_set_dropD)

lemma set_map_filter: "set (List.map_filter m order) \<subseteq> ran m"
  by (auto simp: map_filter_def ran_def)

lemma Search_results_are_matches:
  assumes perm: "permutes Slice"
    and ok: "Search S Slice order resources query filters = Inr res"
    and sr: "sr \<in> set (Results res)"
  shows "Query res = ToLower S (TrimSpace S query) \<and>
         (\<exists>r \<in> set (List.map_filter resources order).
           sr = to_result S (ToLower S (TrimSpace S query)) r
           \<and> is_match S (ToLower S (TrimSpace S query)) filters r)"
proof -
  let ?q = "ToLower S (TrimSpace S query)"
  let ?found = "matches S (List.map_filter resources order) ?q filters"
  let ?sorted = "sortResults Slice ?found (SortBy filters) (SortOrder filters)"
  obtain page where pg: "paginate ?sorted (SearchFilters.Page filters) (SearchFilters.PageSize filters) = Inr page"
    and res: "Results res = page" and qr: "Query res = ?q"
    using ok unfolding Search_unfold [OF perm] by (auto split: sum.splits)
  have "set page \<subseteq> set ?sorted" using pg by (rule paginate_subset)
  moreover have "set ?sorted = set ?found"
    using perm unfolding sortResults_def permutes_def by (metis set_mset_mset)
  ultimately have "sr \<in> set ?found" using sr res by auto
  then show ?thesis using qr by (auto simp: matches_def)
qed

subsection \<open>Relevance\<close>

lemma calculateRelevance_weighted:
  "calculateRelevance S r query = Finite (if query = [] then 1 else weighted_hits S query r)"
  by (simp add: calculateRelevance_def weighted_hits_def hit_def float_eval)

lemma weighted_hits_bounds: "0 \<le> weighted_hits S query r \<and> weighted_hits S query r \<le> 6.5"
  by (simp add: weighted_hits_def)

lemma weighted_hits_zero:
  "weighted_hits S query r = 0 \<longleftrightarrow>
     \<not> hit S query (Title r) \<and> \<not> hit S query (Filename r) \<and> \<not> hit S query (Resource.Subject r)"
  by (simp add: weighted_hits_def)

lemma is_match_hits:
  "is_match S query filters r \<longleftrightarrow>
     (query = [] \<or> weighted_hits S query r \<noteq> 0) \<and> matchesFilters S r filters"
  by (simp add: is_match_def calculateRelevance_weighted)

lemma ascii_strings_simps:
  "ToLower ascii_strings s = map lower_char s"
  "TrimSpace ascii_strings s = rev (dropWhile is_space (rev (dropWhile is_space s)))"
  "EqualFold ascii_strings s t = (map lower_char s = map lower_char t)"
  by (simp_all add: ascii_strings_def)

text \<open>
  C3, as the claim states it, fails for a query of white space: the query \<open>'' ''\<close> is not
  empty and no field of the resource \<open>c\<close> contains it, so that the claim gives \<open>c\<close> the
  relevance 0 and drops it. \<^verbatim>\<open>Search\<close> trims the query before it looks at it, finds it empty
  and returns \<open>c\<close> with the relevance 1.
\<close>

theorem Search_blank_query_counterexample:
  "Search ascii_strings insertionSort [''c'']
       [''c'' \<mapsto> sample_resource ''c'' ''Calculus'' ''calc.pdf'' ''Math'' (Finite 3.5) 7] '' ''
       (no_filters \<lparr>SearchFilters.Page := 1, PageSize := 10\<rparr>)
     = Inr \<lparr>Query = [],
            Results = [\<lparr>Resource = sample_resource ''c'' ''Calculus'' ''calc.pdf'' ''Math'' (Finite 3.5) 7,
                        AvailablePeers = 0, Relevance = Finite 1\<rparr>],
            TotalCount = 1, Page = 1, PageSize = 10\<rparr> \<and>
   relevance_claimed ascii_strings '' ''
       (sample_resource ''c'' ''Calculus'' ''calc.pdf'' ''Math'' (Finite 3.5) 7) = 0 \<and>
   dropped_claimed ascii_strings '' ''
       (sample_resource ''c'' ''Calculus'' ''calc.pdf'' ''Math'' (Finite 3.5) 7)"
proof -
  let ?c = "sample_resource ''c'' ''Calculus'' ''calc.pdf'' ''Math'' (Finite 3.5) 7"
  have q: "ToLower ascii_strings (TrimSpace ascii_strings '' '') = []"
    by (simp add: ascii_strings_simps is_space_def)
  have l: "List.map_filter [''c'' \<mapsto> ?c] [''c''] = [?c]"
    by (simp add: List.map_filter_def)
  have m: "matches ascii_strings [?c] [] (no_filters \<lparr>SearchFilters.Page := 1, PageSize := 10\<rparr>)
      = [\<lparr>Resource = ?c, AvailablePeers = 0, Relevance = Finite 1\<rparr>]"
    by (simp add: matches_def is_match_def to_result_def calculateRelevance_def matchesFilters_def
        no_filters_def sample_resource_def len_def)
  have 1: "Search ascii_strings insertionSort [''c'']
       [''c'' \<mapsto> sample_resource ''c'' ''Calculus'' ''calc.pdf'' ''Math'' (Finite 3.5) 7] '' ''
       (no_filters \<lparr>SearchFilters.Page := 1, PageSize := 10\<rparr>)
     = Inr \<lparr>Query = [], Results = [\<lparr>Resource = ?c, AvailablePeers = 0, Relevance = Finite 1\<rparr>],
            TotalCount = 1, Page = 1, PageSize = 10\<rparr>"
    unfolding Search_unfold [OF insertionSort_permutes] q l m
    by (simp add: sortResults_def insertionSort_def
        paginate_def slice_def len_def Let_def word_sless_alt word_sle_eq no_filters_def)
  have 2: "relevance_claimed ascii_strings '' '' ?c = 0"
    by (simp add: relevance_claimed_def weighted_hits_def hit_def ascii_strings_simps
        sample_resource_def lower_char_def)
  have 3: "dropped_claimed ascii_strings '' '' ?c"
    using 2 by (simp add: dropped_claimed_def)
  show ?thesis using 1 2 3 by (intro conjI)
qed

text \<open>
  C3 (amended): \<^verbatim>\<open>Search\<close> first trims the query and lower-cases it. If what is left is empty,
  the relevance of every resource is 1. Otherwise the relevance is the sum of 3 for a hit in
  the title, 2 for a hit in the file name and 1.5 for a hit in the subject (at most 6.5), a
  hit being that the lower-cased field contains the trimmed and lower-cased query; it is 0
  exactly when no field is hit. Every result of a search carries this relevance, and under
  a query that is not empty after trimming a resource without a hit is in no result,
  whatever the filters are.
\<close>

theorem Search_relevance:
  assumes "permutes Slice"
  shows "calculateRelevance S r query = Finite (if query = [] then 1 else weighted_hits S query r) \<and>
    0 \<le> weighted_hits S query r \<and> weighted_hits S query r \<le> 6.5 \<and>
    (weighted_hits S query r = 0 \<longleftrightarrow>
       \<not> hit S query (Title r) \<and> \<not> hit S query (Filename r)
       \<and> \<not> hit S query (Resource.Subject r)) \<and>
    (is_match S query filters r \<longleftrightarrow>
       (query = [] \<or> weighted_hits S query r \<noteq> 0) \<and> matchesFilters S r filters) \<and>
    (Search S Slice order resources q filters = Inr res \<and> sr \<in> set (Results res) \<longrightarrow>
       Query res = ToLower S (TrimSpace S q) \<and>
       Relevance sr
         = Finite (if Query res = [] then 1 else weighted_hits S (Query res) (Resource sr)) \<and>
       (Query res \<noteq> [] \<longrightarrow> weighted_hits S (Query res) (Resource sr) \<noteq> 0) \<and>
       matchesFilters S (Resource sr) filters)"
proof -
  have d: "Query res = ToLower S (TrimSpace S q) \<and>
       Relevance sr
         = Finite (if Query res = [] then 1 else weighted_hits S (Query res) (Resource sr)) \<and>
       (Query res \<noteq> [] \<longrightarrow> weighted_hits S (Query res) (Resource sr) \<noteq> 0) \<and>
       matchesFilters S (Resource sr) filters"
    if "Search S Slice order resources q filters = Inr res" "sr \<in> set (Results res)"
    using Search_results_are_matches [OF assms that]
    by (auto simp: to_result_def is_match_hits calculateRelevance_weighted)
  show ?thesis
    using calculateRelevance_weighted [of S r query] weighted_hits_bounds [of S query r]
      weighted_hits_zero [of S query r] is_match_hits [of S query filters r] d
    by blast
qed

theorem Search_relevance_witness:
  "calculateRelevance ascii_strings
       (sample_resource ''a'' ''Go Programming'' ''go.pdf'' ''Go'' (Finite 4.5) 10) ''go''
     = Finite 6.5 \<and>
   calculateRelevance ascii_strings
       (sample_resource ''c'' ''Calculus'' ''calc.pdf'' ''Math'' (Finite 3.5) 7) ''go''
     = Finite 0 \<and>
   Search ascii_strings insertionSort [''a'', ''b'', ''c''] library '' Go ''
       (no_filters \<lparr>SearchFilters.Page := 1, PageSize := 10\<rparr>)
     = Inr \<lparr>Query = ''go'',
            Results =
              [\<lparr>Resource = sample_resource ''b'' ''Go Networking'' ''net.pdf'' ''CS'' (Finite 4.0) 3,
                AvailablePeers = 0, Relevance = Finite 3\<rparr>,
               \<lparr>Resource = sample_resource ''a'' ''Go Programming'' ''go.pdf'' ''CS'' (Finite 4.5) 10,
                AvailablePeers = 0, Relevance = Finite 5\<rparr>],
            TotalCount = 2, Page = 1, PageSize = 10\<rparr> \<and>
   weighted_hits ascii_strings ''go''
       (sample_resource ''b'' ''Go Networking'' ''net.pdf'' ''CS'' (Finite 4.0) 3) \<noteq> 0"
proof -
  let ?a' = "sample_resource ''a'' ''Go Programming'' ''go.pdf'' ''Go'' (Finite 4.5) 10"
  let ?a = "sample_resource ''a'' ''Go Programming'' ''go.pdf'' ''CS'' (Finite 4.5) 10"
  let ?b = "sample_resource ''b'' ''Go Networking'' ''net.pdf'' ''CS'' (Finite 4.0) 3"
  let ?c = "sample_resource ''c'' ''Calculus'' ''calc.pdf'' ''Math'' (Finite 3.5) 7"
  let ?f = "no_filters \<lparr>SearchFilters.Page := 1, PageSize := 10\<rparr>"
  note w = Search_relevance [OF insertionSort_permutes, of ascii_strings]
  have wa': "weighted_hits ascii_strings ''go''
      (sample_resource ''a'' ''Go Programming'' ''go.pdf'' ''Go'' x n) = 6.5" for x n
    by (simp add: weighted_hits_def hit_def ascii_strings_simps sample_resource_def lower_char_def)
  have wa: "weighted_hits ascii_strings ''go''
      (sample_resource ''a'' ''Go Programming'' ''go.pdf'' ''CS'' x n) = 5" for x n
    by (simp add: weighted_hits_def hit_def ascii_strings_simps sample_resource_def lower_char_def)
  have wb: "weighted_hits ascii_strings ''go''
      (sample_resource ''b'' ''Go Networking'' ''net.pdf'' ''CS'' x n) = 3" for x n
    by (simp add: weighted_hits_def hit_def ascii_strings_simps sample_resource_def lower_char_def)
  have wc: "weighted_hits ascii_strings ''go''
      (sample_resource ''c'' ''Calculus'' ''calc.pdf'' ''Math'' x n) = 0" for x n
    by (simp add: weighted_hits_def hit_def ascii_strings_simps sample_resource_def lower_char_def)
  have ne: "''go'' \<noteq> []" by simp
  have 1: "calculateRelevance ascii_strings ?a' ''go'' = Finite 6.5"
    using w [of ?a' "''go''", THEN conjunct1] unfolding wa' by simp
  have rc: "calculateRelevance ascii_strings
      (sample_resource ''c'' ''Calculus'' ''calc.pdf'' ''Math'' x n) ''go'' = Finite 0" for x n
    using w [of "sample_resource ''c'' ''Calculus'' ''calc.pdf'' ''Math'' x n" "''go''", THEN conjunct1]
    unfolding wc by simp
  have 2: "calculateRelevance ascii_strings ?c ''go'' = Finite 0"
    by (rule rc)
  have ra: "calculateRelevance ascii_strings
      (sample_resource ''a'' ''Go Programming'' ''go.pdf'' ''CS'' x n) ''go'' = Finite 5" for x n
    using w [of "sample_resource ''a'' ''Go Programming'' ''go.pdf'' ''CS'' x n" "''go''", THEN conjunct1]
    unfolding wa by simp
  have rb: "calculateRelevance ascii_strings
      (sample_resource ''b'' ''Go Networking'' ''net.pdf'' ''CS'' x n) ''go'' = Finite 3" for x n
    using w [of "sample_resource ''b'' ''Go Networking'' ''net.pdf'' ''CS'' x n" "''go''", THEN conjunct1]
    unfolding wb by simp
  have q: "ToLower ascii_strings (TrimSpace ascii_strings '' Go '') = ''go''"
    by (simp add: ascii_strings_simps is_space_def lower_char_def)
  have mf: "matchesFilters ascii_strings r ?f" for r
    by (simp add: matchesFilters_def no_filters_def)
  have l: "List.map_filter library [''a'', ''b'', ''c''] = [?a, ?b, ?c]"
    by (simp add: library_def List.map_filter_def)
  have m: "matches ascii_strings [?a, ?b, ?c] ''go'' ?f
      = [\<lparr>Resource = ?a, AvailablePeers = 0, Relevance = Finite 5\<rparr>,
         \<lparr>Resource = ?b, AvailablePeers = 0, Relevance = Finite 3\<rparr>]"
    by (simp add: matches_def is_match_def to_result_def ra rb rc mf)
       (simp add: sample_resource_def len_def)
  have 3: "Search ascii_strings insertionSort [''a'', ''b'', ''c''] library '' Go '' ?f
     = Inr \<lparr>Query = ''go'',
            Results = [\<lparr>Resource = ?b, AvailablePeers = 0, Relevance = Finite 3\<rparr>,
                       \<lparr>Resource = ?a, AvailablePeers = 0, Relevance = Finite 5\<rparr>],
            TotalCount = 2, Page = 1, PageSize = 10\<rparr>"
    unfolding Search_unfold [OF insertionSort_permutes] q l m
    by (simp add: sortResults_def insertionSort_def result_less_def key_less_def no_filters_def
        paginate_def slice_def len_def Let_def word_sless_alt word_sle_eq)
  let ?res = "\<lparr>Query = ''go'',
            Results = [\<lparr>Resource = ?b, AvailablePeers = 0, Relevance = Finite 3\<rparr>,
                       \<lparr>Resource = ?a, AvailablePeers = 0, Relevance = Finite 5\<rparr>],
            TotalCount = 2, Page = 1, PageSize = 10\<rparr>"
  let ?sr = "\<lparr>Resource = ?b, AvailablePeers = 0, Relevance = Finite 3\<rparr>"
  have mem: "?sr \<in> set (Results ?res)" by simp
  have "Query ?res \<noteq> [] \<longrightarrow> weighted_hits ascii_strings (Query ?res) (Resource ?sr) \<noteq> 0"
    using Search_relevance [OF insertionSort_permutes, where S = ascii_strings
        and order = "[''a'', ''b'', ''c'']" and resources = library and q = "'' Go ''"
        and filters = ?f and res = ?res and sr = ?sr] 3 mem
    by blast
  then have 4: "weighted_hits ascii_strings ''go'' ?b \<noteq> 0" by simp
  show ?thesis using 1 2 3 4 by (intro conjI)
qed

subsection \<open>Pages\<close>

text \<open>
  C4, as the claim states it, fails for a negative page size: the claim clamps it to 1,
  \<^verbatim>\<open>paginate\<close> replaces every size below 1 by 10. For three results, page 1 and size -5 the
  program returns all three, the claim's pagination one.
\<close>

theorem paginate_size_counterexample:
  "paginate [1::nat, 2, 3] 1 (- 5) = Inr [1, 2, 3] \<and>
   paginate_claimed [1::nat, 2, 3] (sint (1 :: go_int)) (sint (- 5 :: go_int)) = [1]"
  by (simp add: paginate_def slice_def len_def Let_def word_sless_alt word_sle_eq
      paginate_claimed_def window_def)

text \<open>
  C4 (amended): pagination replaces a page below 1 by 1 and a page size below 1 by 10
  (\<open>effective_page\<close>, \<open>effective_size\<close>) and computes \<open>offset = (page - 1) * pageSize\<close>.
  When that product is below \<open>2 ^ 63\<close> (no overflow; lists are shorter than \<open>2 ^ 62\<close>), the
  page is empty for \<open>offset \<ge> total\<close> and otherwise holds exactly the elements at the positions
  \<open>offset \<le> i < min (offset + pageSize) total\<close>, never an error. The \<^verbatim>\<open>TotalCount\<close> of a search
  is the number of resources that pass the relevance test and the filters, counted before
  pagination.
\<close>

theorem Search_pagination:
  assumes "permutes Slice"
    and "length order < 2 ^ 62"
    and "length results < 2 ^ 62"
    and "(effective_page (SearchFilters.Page filters) - 1)
           * effective_size (SearchFilters.PageSize filters) < 2 ^ 63"
  shows "paginate results (SearchFilters.Page filters) (SearchFilters.PageSize filters)
           = Inr (window results
                   ((effective_page (SearchFilters.Page filters) - 1)
                      * effective_size (SearchFilters.PageSize filters))
                   (effective_size (SearchFilters.PageSize filters)))
       \<and> Search S Slice order resources query filters
           = Inr \<lparr>Query = ToLower S (TrimSpace S query),
                  Results =
                    window
                      (sortResults Slice
                         (matches S (List.map_filter resources order) (ToLower S (TrimSpace S query)) filters)
                         (SortBy filters) (SortOrder filters))
                      ((effective_page (SearchFilters.Page filters) - 1)
                         * effective_size (SearchFilters.PageSize filters))
                      (effective_size (SearchFilters.PageSize filters)),
                  TotalCount =
                    len (matches S (List.map_filter resources order) (ToLower S (TrimSpace S query)) filters),
                  Page = SearchFilters.Page filters,
                  PageSize = SearchFilters.PageSize filters\<rparr>
       \<and> sint (len (matches S (List.map_filter resources order) (ToLower S (TrimSpace S query)) filters))
           = int (length (filter (is_match S (ToLower S (TrimSpace S query)) filters)
                            (List.map_filter resources order)))"
proof -
  let ?found = "matches S (List.map_filter resources order) (ToLower S (TrimSpace S query)) filters"
  let ?sorted = "sortResults Slice ?found (SortBy filters) (SortOrder filters)"
  have l1: "length ?found \<le> length order"
    using length_matches [of S "List.map_filter resources order"] length_map_filter [of resources order]
    by (rule order_trans)
  have l2: "length ?found < 2 ^ 62" using l1 assms(2) by (rule order.strict_trans1)
  have "length ?sorted = length ?found"
    using assms(1) unfolding sortResults_def permutes_def by (metis size_mset)
  then have l3: "length ?sorted < 2 ^ 62" using l2 by simp
  have a: "paginate results (SearchFilters.Page filters) (SearchFilters.PageSize filters)
           = Inr (window results
                   ((effective_page (SearchFilters.Page filters) - 1)
                      * effective_size (SearchFilters.PageSize filters))
                   (effective_size (SearchFilters.PageSize filters)))"
    using assms(3,4) by (rule paginate_window)
  have b: "paginate ?sorted (SearchFilters.Page filters) (SearchFilters.PageSize filters)
           = Inr (window ?sorted
                   ((effective_page (SearchFilters.Page filters) - 1)
                      * effective_size (SearchFilters.PageSize filters))
                   (effective_size (SearchFilters.PageSize filters)))"
    using l3 assms(4) by (rule paginate_window)
  have l4: "length ?found < 2 ^ 63" using l2 by simp
  have c: "sint (len ?found) = int (length ?found)" using l4 by (rule sint_len)
  have d: "length ?found = length (filter (is_match S (ToLower S (TrimSpace S query)) filters)
                            (List.map_filter resources order))"
    by (simp add: matches_def)
  show ?thesis
    unfolding Search_unfold [OF assms(1)] b using a c d by simp
qed

theorem Search_pagination_witness:
  "paginate [1::nat, 2, 3] 2 2 = Inr [3] \<and>
   paginate [1::nat, 2, 3] 0 (- 5) = Inr [1, 2, 3] \<and>
   Search ascii_strings insertionSort [''a'', ''b'', ''c''] library []
       (no_filters \<lparr>SearchFilters.Page := 2, PageSize := 2\<rparr>)
     = Inr \<lparr>Query = [],
            Results =
              [\<lparr>Resource = sample_resource ''c'' ''Calculus'' ''calc.pdf'' ''Math'' (Finite 3.5) 7,
                AvailablePeers = 0, Relevance = Finite 1\<rparr>],
            TotalCount = 3, Page = 2, PageSize = 2\<rparr>"
proof -
  let ?f = "no_filters \<lparr>SearchFilters.Page := 2, PageSize := 2\<rparr>"
  let ?g = "no_filters \<lparr>SearchFilters.Page := 0, PageSize := - 5\<rparr>"
  let ?m = "matches ascii_strings (List.map_filter library [''a'', ''b'', ''c'']) [] ?f"
  have h1: "length [''a'', ''b'', ''c''] < 2 ^ 62" by simp
  have h2: "length [1::nat, 2, 3] < 2 ^ 62" by simp
  have pf: "SearchFilters.Page ?f = 2" "SearchFilters.PageSize ?f = 2"
    "SearchFilters.Page ?g = 0" "SearchFilters.PageSize ?g = - 5" by simp_all
  have ep: "effective_page 2 = 2" "effective_page 0 = 1"
    by (simp_all add: effective_page_def)
  have es: "effective_size 2 = 2" "effective_size (- 5) = 10"
    by (simp_all add: effective_size_def)
  have ar: "(2 - 1) * 2 = (2::int)" "(1 - 1) * 10 = (0::int)" by simp_all
  have h3: "(effective_page (SearchFilters.Page ?f) - 1) * effective_size (SearchFilters.PageSize ?f) < 2 ^ 63"
    unfolding pf ep es ar by simp
  have h3': "(effective_page (SearchFilters.Page ?g) - 1) * effective_size (SearchFilters.PageSize ?g) < 2 ^ 63"
    unfolding pf ep es ar by simp
  note t = Search_pagination [OF insertionSort_permutes h1 h2 h3, of ascii_strings library "[]"]
  note t' = Search_pagination [OF insertionSort_permutes h1 h2 h3', of ascii_strings library "[]"]
  have w1: "window [1::nat, 2, 3] 2 2 = [3]" by code_simp
  have w2: "window [1::nat, 2, 3] 0 10 = [1, 2, 3]" by code_simp
  have w3: "window (sortResults insertionSort ?m (SortBy ?f) (SortOrder ?f)) 2 2
      = [\<lparr>Resource = sample_resource ''c'' ''Calculus'' ''calc.pdf'' ''Math'' (Finite 3.5) 7,
          AvailablePeers = 0, Relevance = Finite 1\<rparr>]"
    by code_simp
  have w4: "len ?m = 3" by code_simp
  have q: "ToLower ascii_strings (TrimSpace ascii_strings []) = []" by code_simp
  have 1: "paginate [1::nat, 2, 3] 2 2 = Inr [3]"
    using t [THEN conjunct1] by (simp only: pf ep es ar w1)
  have 2: "paginate [1::nat, 2, 3] 0 (- 5) = Inr [1, 2, 3]"
    using t' [THEN conjunct1] by (simp only: pf ep es ar w2)
  have 3: "Search ascii_strings insertionSort [''a'', ''b'', ''c''] library [] ?f
     = Inr \<lparr>Query = [],
            Results =
              [\<lparr>Resource = sample_resource ''c'' ''Calculus'' ''calc.pdf'' ''Math'' (Finite 3.5) 7,
                AvailablePeers = 0, Relevance = Finite 1\<rparr>],
            TotalCount = 3, Page = 2, PageSize = 2\<rparr>"
    using t [THEN conjunct2, THEN conjunct1] by (simp only: pf ep es ar q w3 w4)
  show ?thesis using 1 2 3 by (intro conjI)
qed

text \<open>
  C9: for every list of results and every page size of at least 1, the pages
  \<open>1, 2, \<dots>, n\<close> put together in order are exactly the list (nothing twice, nothing left
  out), for the number \<open>n\<close> of pages the list needs and for every larger number of pages
  whose offsets stay below \<open>2 ^ 63\<close>.
\<close>

theorem paginate_exhaustive:
  assumes "1 \<le>s psize" and "length results < 2 ^ 62"
  shows "all_pages results psize (pages_needed results psize) = Inr results \<and>
         (length results \<le> n * nat (sint psize) \<and> n * nat (sint psize) < 2 ^ 63
            \<longrightarrow> all_pages results psize n = Inr results)"
proof -
  have "all_pages results psize (pages_needed results psize) = Inr results"
    using pages_needed_bounds [OF assms] all_pages_covers [OF assms] by blast
  moreover have "all_pages results psize n = Inr results"
    if "length results \<le> n * nat (sint psize)" "n * nat (sint psize) < 2 ^ 63"
    using assms that by (rule all_pages_covers)
  ultimately show ?thesis by blast
qed

theorem paginate_exhaustive_witness:
  "pages_needed [1::nat, 2, 3, 4, 5] 2 = 3 \<and>
   map (\<lambda>p. paginate [1::nat, 2, 3, 4, 5] (of_nat p) 2) [1, 2, 3] = [Inr [1, 2], Inr [3, 4], Inr [5]] \<and>
   all_pages [1::nat, 2, 3, 4, 5] 2 3 = Inr [1, 2, 3, 4, 5] \<and>
   all_pages [1::nat, 2, 3, 4, 5] 2 7 = Inr [1, 2, 3, 4, 5]"
proof -
  have s: "(1 :: go_int) \<le>s 2" by (simp add: word_sle_eq)
  have l: "length [1::nat, 2, 3, 4, 5] < 2 ^ 62" by simp
  have p: "pages_needed [1::nat, 2, 3, 4, 5] 2 = 3" by (simp add: pages_needed_def)
  have c: "length [1::nat, 2, 3, 4, 5] \<le> 7 * nat (sint (2 :: go_int)) \<and> 7 * nat (sint (2 :: go_int)) < 2 ^ 63"
    by simp
  have m: "map (\<lambda>p. paginate [1::nat, 2, 3, 4, 5] (of_nat p) 2) [1, 2, 3] = [Inr [1, 2], Inr [3, 4], Inr [5]]"
    by (simp add: paginate_def slice_def len_def Let_def word_sless_alt word_sle_eq)
  show ?thesis
    using paginate_exhaustive [OF s l, of 7] p c m by simp
qed

section \<open>Determinism of the search\<close>

lemma insert_left_set: "set (insert_left lt x ys) = insert x (set ys)"
  by (induction ys) auto

lemma insert_left_distinct: "distinct (insert_left lt x ys) = distinct (x # ys)"
  by (induction ys) (auto simp: insert_left_set)

lemma insert_left_sorted:
  assumes ord: "strict_order_on A lt"
    and sub: "insert x (set ys) \<subseteq> A" and new: "x \<notin> set ys"
    and srt: "sorted_wrt (\<lambda>a b. lt b a) ys"
  shows "sorted_wrt (\<lambda>a b. lt b a) (insert_left lt x ys)"
  using sub new srt
proof (induction ys)
  case Nil
  show ?case by simp
next
  case (Cons y ys)
  have tot: "a \<noteq> b \<Longrightarrow> a \<in> A \<Longrightarrow> b \<in> A \<Longrightarrow> lt a b \<or> lt b a" for a b
    using ord unfolding strict_order_on_def by blast
  have trans: "a \<in> A \<Longrightarrow> b \<in> A \<Longrightarrow> c \<in> A \<Longrightarrow> lt a b \<Longrightarrow> lt b c \<Longrightarrow> lt a c" for a b c
    using ord unfolding strict_order_on_def by blast
  show ?case
  proof (cases "lt x y")
    case True
    have "sorted_wrt (\<lambda>a b. lt b a) (insert_left lt x ys)"
      using Cons by auto
    moreover have "\<forall>z \<in> set (insert_left lt x ys). lt z y"
      using True Cons.prems(3) by (auto simp: insert_left_set)
    ultimately show ?thesis using True by simp
  next
    case False
    have xy: "x \<noteq> y" "x \<in> A" "y \<in> A" using Cons.prems by auto
    then have yx: "lt y x" using tot False by blast
    have "lt z x" if "z \<in> set ys" for z
    proof -
      have "lt z y" using Cons.prems(3) that by simp
      moreover have "z \<in> A" using Cons.prems(1) that by auto
      ultimately show ?thesis using yx xy trans by blast
    qed
    then show ?thesis using False yx Cons.prems(3) by auto
  qed
qed

lemma foldl_insert_left_sorted:
  assumes ord: "strict_order_on A lt"
  shows "distinct (acc @ xs) \<Longrightarrow> set (acc @ xs) \<subseteq> A \<Longrightarrow> sorted_wrt (\<lambda>a b. lt b a) acc
    \<Longrightarrow> sorted_wrt (\<lambda>a b. lt b a) (foldl (\<lambda>acc x. insert_left lt x acc) acc xs)"
proof (induction xs arbitrary: acc)
  case Nil
  then show ?case by simp
next
  case (Cons x xs)
  have s: "sorted_wrt (\<lambda>a b. lt b a) (insert_left lt x acc)"
    using ord _ _ Cons.prems(3) by (rule insert_left_sorted) (use Cons.prems in auto)
  have d: "distinct (insert_left lt x acc @ xs)"
    using Cons.prems(1) by (auto simp: insert_left_set insert_left_distinct)
  have a: "set (insert_left lt x acc @ xs) \<subseteq> A"
    using Cons.prems(2) by (auto simp: insert_left_set)
  show ?case using Cons.IH [OF d a s] by simp
qed

lemma insertionSort_sorts: "sorts insertionSort"
  unfolding sorts_def
proof (intro allI impI)
  fix lt :: "'a \<Rightarrow> 'a \<Rightarrow> bool" and xs :: "'a list"
  assume d: "distinct xs" and ord: "strict_order_on (set xs) lt"
  have "sorted_wrt (\<lambda>a b. lt b a) (foldl (\<lambda>acc x. insert_left lt x acc) [] xs)"
    using ord by (rule foldl_insert_left_sorted) (use d in simp_all)
  then show "sorted_wrt lt (insertionSort lt xs)"
    by (simp add: insertionSort_def sorted_wrt_rev)
qed

lemma sorted_wrt_unique:
  assumes asym: "\<And>a b. a \<in> set xs \<Longrightarrow> b \<in> set xs \<Longrightarrow> a \<noteq> b \<Longrightarrow> \<not> (lt a b \<and> lt b a)"
  shows "distinct xs \<Longrightarrow> mset xs = mset ys \<Longrightarrow> sorted_wrt lt xs \<Longrightarrow> sorted_wrt lt ys \<Longrightarrow> xs = ys"
  using asym
proof (induction xs arbitrary: ys)
  case Nil
  then show ?case by simp
next
  case (Cons x xs)
  then obtain y ys' where ys: "ys = y # ys'" by (cases ys) auto
  have seteq: "set (x # xs) = set (y # ys')"
    using Cons.prems(2) ys by (metis set_mset_mset)
  have xy: "x = y"
  proof (rule ccontr)
    assume ne: "x \<noteq> y"
    then have "x \<in> set ys'" and "y \<in> set xs" using seteq by auto
    then have "lt y x" and "lt x y"
      using Cons.prems(3,4) ys by auto
    moreover have "y \<in> set (x # xs)" using seteq by auto
    ultimately show False using Cons.prems(5) [of x y] ne by auto
  qed
  have "xs = ys'"
  proof (rule Cons.IH)
    show "distinct xs" using Cons.prems(1) by simp
    show "mset xs = mset ys'" using Cons.prems(2) ys xy by simp
    show "sorted_wrt lt xs" using Cons.prems(3) by simp
    show "sorted_wrt lt ys'" using Cons.prems(4) ys by simp
    show "\<And>a b. a \<in> set xs \<Longrightarrow> b \<in> set xs \<Longrightarrow> a \<noteq> b \<Longrightarrow> \<not> (lt a b \<and> lt b a)"
      using Cons.prems(5) by auto
  qed
  then show ?case using xy ys by simp
qed

lemma key_less_irrefl: "\<not> key_less sort_by a a"
  by (simp add: key_less_def fless_irrefl word_sless_alt)

lemma key_less_asym: "key_less sort_by a b \<Longrightarrow> \<not> key_less sort_by b a"
  by (auto simp: key_less_def word_sless_alt dest: fless_asym split: if_splits)

lemma key_less_trans: "key_less sort_by a b \<Longrightarrow> key_less sort_by b c \<Longrightarrow> key_less sort_by a c"
  by (auto simp: key_less_def word_sless_alt dest: fless_trans split: if_splits)

lemma tie_free_comparable:
  "tie_free lt xs \<Longrightarrow> a \<in> set xs \<Longrightarrow> b \<in> set xs \<Longrightarrow> a \<noteq> b \<Longrightarrow> lt a b \<or> lt b a"
  by (induction xs) (auto simp: list_all_iff)

lemma tie_free_distinct:
  "tie_free lt xs \<Longrightarrow> (\<And>x. \<not> lt x x) \<Longrightarrow> distinct xs"
  by (induction xs) (auto simp: list_all_iff)

lemma result_less_strict_order:
  assumes total: "\<And>a b. a \<in> A \<Longrightarrow> b \<in> A \<Longrightarrow> a \<noteq> b \<Longrightarrow> key_less sort_by a b \<or> key_less sort_by b a"
  shows "strict_order_on A (result_less sort_by order)"
  unfolding strict_order_on_def
proof (intro conjI ballI impI)
  fix a b assume "a \<in> A" "b \<in> A" "a \<noteq> b"
  then have "key_less sort_by a b \<or> key_less sort_by b a" by (rule total)
  then show "result_less sort_by order a b \<longleftrightarrow> \<not> result_less sort_by order b a"
    using key_less_asym [of sort_by a b] key_less_asym [of sort_by b a]
    by (auto simp: result_less_def)
next
  fix a b c
  assume A: "a \<in> A" "b \<in> A" "c \<in> A"
    and ab: "result_less sort_by order a b" and bc: "result_less sort_by order b c"
  show "result_less sort_by order a c"
  proof (cases "order = ''desc''")
    case False
    then show ?thesis using ab bc key_less_trans [of sort_by a b c] by (simp add: result_less_def)
  next
    case True
    have nab: "\<not> key_less sort_by a b" and nbc: "\<not> key_less sort_by b c"
      using ab bc True by (simp_all add: result_less_def)
    have "\<not> key_less sort_by a c"
    proof
      assume ac: "key_less sort_by a c"
      have "a \<noteq> b" using ac nbc by auto
      then have ba: "key_less sort_by b a" using total [OF A(1,2)] nab by blast
      have "b \<noteq> c" using ac nab by auto
      then have cb: "key_less sort_by c b" using total [OF A(2,3)] nbc by blast
      have "key_less sort_by c a" using cb ba by (rule key_less_trans)
      then show False using ac key_less_asym by blast
    qed
    then show ?thesis using True by (simp add: result_less_def)
  qed
qed

lemma mset_map_filter:
  "mset xs = mset ys \<Longrightarrow> mset (List.map_filter f xs) = mset (List.map_filter f ys)"
  by (metis map_filter_def mset_filter mset_map)

lemma enumerations_mset:
  assumes "enumerates order1 m" "enumerates order2 m"
  shows "mset order1 = mset order2"
  using assms unfolding enumerates_def by (metis set_eq_iff_mset_eq_distinct)

text \<open>
  C5, as the claim states it, fails: the order in which \<^verbatim>\<open>GetAll\<close> hands over the resources
  is the iteration order of a Go map, which changes from one call to the next, and
  \<^verbatim>\<open>sortResults\<close> has no second key. With the empty query all three resources of the
  example tie on the relevance 1, and the first page of size 1 holds resource \<open>a\<close> under one
  enumeration of the unchanged store and resource \<open>c\<close> under another (\<^verbatim>\<open>sort.Slice\<close> runs
  its insertion sort on so short a slice).
\<close>

theorem Search_tie_counterexample:
  "enumerates [''a'', ''b'', ''c''] library \<and>
   enumerates [''c'', ''b'', ''a''] library \<and>
   Search ascii_strings insertionSort [''a'', ''b'', ''c''] library []
       (no_filters \<lparr>SearchFilters.Page := 1, PageSize := 1\<rparr>)
     = Inr \<lparr>Query = [],
            Results =
              [\<lparr>Resource = sample_resource ''a'' ''Go Programming'' ''go.pdf'' ''CS'' (Finite 4.5) 10,
                AvailablePeers = 0, Relevance = Finite 1\<rparr>],
            TotalCount = 3, Page = 1, PageSize = 1\<rparr> \<and>
   Search ascii_strings insertionSort [''c'', ''b'', ''a''] library []
       (no_filters \<lparr>SearchFilters.Page := 1, PageSize := 1\<rparr>)
     = Inr \<lparr>Query = [],
            Results =
              [\<lparr>Resource = sample_resource ''c'' ''Calculus'' ''calc.pdf'' ''Math'' (Finite 3.5) 7,
                AvailablePeers = 0, Relevance = Finite 1\<rparr>],
            TotalCount = 3, Page = 1, PageSize = 1\<rparr>"
proof -
  have 1: "enumerates [''a'', ''b'', ''c''] library"
    by (auto simp: enumerates_def library_def)
  have 2: "enumerates [''c'', ''b'', ''a''] library"
    by (auto simp: enumerates_def library_def)
  have 3: "Search ascii_strings insertionSort [''a'', ''b'', ''c''] library []
       (no_filters \<lparr>SearchFilters.Page := 1, PageSize := 1\<rparr>)
     = Inr \<lparr>Query = [],
            Results =
              [\<lparr>Resource = sample_resource ''a'' ''Go Programming'' ''go.pdf'' ''CS'' (Finite 4.5) 10,
                AvailablePeers = 0, Relevance = Finite 1\<rparr>],
            TotalCount = 3, Page = 1, PageSize = 1\<rparr>"
    by code_simp
  have 4: "Search ascii_strings insertionSort [''c'', ''b'', ''a''] library []
       (no_filters \<lparr>SearchFilters.Page := 1, PageSize := 1\<rparr>)
     = Inr \<lparr>Query = [],
            Results =
              [\<lparr>Resource = sample_resource ''c'' ''Calculus'' ''calc.pdf'' ''Math'' (Finite 3.5) 7,
                AvailablePeers = 0, Relevance = Finite 1\<rparr>],
            TotalCount = 3, Page = 1, PageSize = 1\<rparr>"
    by code_simp
  show ?thesis using 1 2 3 4 by (intro conjI)
qed

text \<open>
  C5 (amended): two runs of a search with the same query, filters, page and page size
  against an unchanged collection return identical results, whatever the orders in which
  the store enumerates its map, provided no two matching resources tie, that is, of any
  two of them the comparison by the chosen sort key calls one less than the other (and
  \<^verbatim>\<open>sort.Slice\<close> sorts). Nothing is said of results that tie: their order depends on the
  enumeration.
\<close>

theorem Search_order_independent:
  assumes perm: "permutes Slice" and srt: "sorts Slice"
    and e1: "enumerates order1 resources" and e2: "enumerates order2 resources"
    and ties: "tie_free (key_less (SortBy filters))
                 (matches S (List.map_filter resources order1) (ToLower S (TrimSpace S query))
                    filters)"
  shows "Search S Slice order1 resources query filters
           = Search S Slice order2 resources query filters"
proof -
  let ?q = "ToLower S (TrimSpace S query)"
  let ?lt = "result_less (SortBy filters) (SortOrder filters)"
  let ?f1 = "matches S (List.map_filter resources order1) ?q filters"
  let ?f2 = "matches S (List.map_filter resources order2) ?q filters"
  have "mset (List.map_filter resources order1) = mset (List.map_filter resources order2)"
    using enumerations_mset [OF e1 e2] by (rule mset_map_filter)
  then have m: "mset ?f1 = mset ?f2"
    unfolding matches_def by (metis mset_filter mset_map)
  have d1: "distinct ?f1" using ties key_less_irrefl by (rule tie_free_distinct)
  have d2: "distinct ?f2" using d1 m by (metis mset_eq_imp_distinct_iff)
  have s12: "set ?f2 = set ?f1" using m by (metis set_mset_mset)
  have ord: "strict_order_on (set ?f1) ?lt"
    using tie_free_comparable [OF ties] by (rule result_less_strict_order)
  have ord2: "strict_order_on (set ?f2) ?lt"
    using ord s12 by simp
  have so1: "sorted_wrt ?lt (Slice ?lt ?f1)"
    using srt d1 ord unfolding sorts_def by blast
  have so2: "sorted_wrt ?lt (Slice ?lt ?f2)"
    using srt d2 ord2 unfolding sorts_def by blast
  have p1: "mset (Slice ?lt ?f1) = mset ?f1" and p2: "mset (Slice ?lt ?f2) = mset ?f2"
    using perm unfolding permutes_def by blast+
  have ms: "mset (Slice ?lt ?f1) = mset (Slice ?lt ?f2)"
    using p1 p2 m by simp
  have ds: "distinct (Slice ?lt ?f1)"
    using d1 p1 by (metis mset_eq_imp_distinct_iff)
  have ss: "set (Slice ?lt ?f1) = set ?f1"
    using p1 by (metis set_mset_mset)
  have asym: "\<not> (?lt a b \<and> ?lt b a)"
    if "a \<in> set (Slice ?lt ?f1)" "b \<in> set (Slice ?lt ?f1)" "a \<noteq> b" for a b
    using ord that unfolding strict_order_on_def ss by blast
  have eq: "Slice ?lt ?f1 = Slice ?lt ?f2"
    using asym ds ms so1 so2 by (rule sorted_wrt_unique)
  have "length ?f1 = length ?f2" using m by (metis size_mset)
  then have l: "len ?f1 = len ?f2" by (simp add: len_def)
  show ?thesis
    unfolding Search_unfold [OF perm] sortResults_def eq l ..
qed

theorem Search_order_independent_witness:
  "matches ascii_strings (List.map_filter library [''a'', ''b'', ''c'']) ''go''
       (no_filters \<lparr>SortBy := ''downloads'', SearchFilters.Page := 1, PageSize := 10\<rparr>)
     = [\<lparr>Resource = sample_resource ''a'' ''Go Programming'' ''go.pdf'' ''CS'' (Finite 4.5) 10,
         AvailablePeers = 0, Relevance = Finite 5\<rparr>,
        \<lparr>Resource = sample_resource ''b'' ''Go Networking'' ''net.pdf'' ''CS'' (Finite 4.0) 3,
         AvailablePeers = 0, Relevance = Finite 3\<rparr>] \<and>
   matches ascii_strings (List.map_filter library [''c'', ''b'', ''a'']) ''go''
       (no_filters \<lparr>SortBy := ''downloads'', SearchFilters.Page := 1, PageSize := 10\<rparr>)
     = [\<lparr>Resource = sample_resource ''b'' ''Go Networking'' ''net.pdf'' ''CS'' (Finite 4.0) 3,
         AvailablePeers = 0, Relevance = Finite 3\<rparr>,
        \<lparr>Resource = sample_resource ''a'' ''Go Programming'' ''go.pdf'' ''CS'' (Finite 4.5) 10,
         AvailablePeers = 0, Relevance = Finite 5\<rparr>] \<and>
   Search ascii_strings insertionSort [''a'', ''b'', ''c''] library ''go''
       (no_filters \<lparr>SortBy := ''downloads'', SearchFilters.Page := 1, PageSize := 10\<rparr>)
     = Search ascii_strings insertionSort [''c'', ''b'', ''a''] library ''go''
       (no_filters \<lparr>SortBy := ''downloads'', SearchFilters.Page := 1, PageSize := 10\<rparr>) \<and>
   Search ascii_strings insertionSort [''a'', ''b'', ''c''] library ''go''
       (no_filters \<lparr>SortBy := ''downloads'', SearchFilters.Page := 1, PageSize := 10\<rparr>)
     = Inr \<lparr>Query = ''go'',
            Results =
              [\<lparr>Resource = sample_resource ''b'' ''Go Networking'' ''net.pdf'' ''CS'' (Finite 4.0) 3,
                AvailablePeers = 0, Relevance = Finite 3\<rparr>,
               \<lparr>Resource = sample_resource ''a'' ''Go Programming'' ''go.pdf'' ''CS'' (Finite 4.5) 10,
                AvailablePeers = 0, Relevance = Finite 5\<rparr>],
            TotalCount = 2, Page = 1, PageSize = 10\<rparr>"
proof -
  let ?f = "no_filters \<lparr>SortBy := ''downloads'', SearchFilters.Page := 1, PageSize := 10\<rparr>"
  let ?ra = "\<lparr>Resource = sample_resource ''a'' ''Go Programming'' ''go.pdf'' ''CS'' (Finite 4.5) 10,
         AvailablePeers = 0, Relevance = Finite 5\<rparr>"
  let ?rb = "\<lparr>Resource = sample_resource ''b'' ''Go Networking'' ''net.pdf'' ''CS'' (Finite 4.0) 3,
         AvailablePeers = 0, Relevance = Finite 3\<rparr>"
  have 1: "enumerates [''a'', ''b'', ''c''] library"
    by (auto simp: enumerates_def library_def)
  have 2: "enumerates [''c'', ''b'', ''a''] library"
    by (auto simp: enumerates_def library_def)
  have q: "ToLower ascii_strings (TrimSpace ascii_strings ''go'') = ''go''"
    by (simp add: ascii_strings_simps is_space_def lower_char_def)
  have ra: "calculateRelevance ascii_strings
      (sample_resource ''a'' ''Go Programming'' ''go.pdf'' ''CS'' x n) ''go'' = Finite 5" for x n
    by (simp add: calculateRelevance_weighted weighted_hits_def hit_def ascii_strings_simps
        sample_resource_def lower_char_def)
  have rb: "calculateRelevance ascii_strings
      (sample_resource ''b'' ''Go Networking'' ''net.pdf'' ''CS'' x n) ''go'' = Finite 3" for x n
    by (simp add: calculateRelevance_weighted weighted_hits_def hit_def ascii_strings_simps
        sample_resource_def lower_char_def)
  have rc: "calculateRelevance ascii_strings
      (sample_resource ''c'' ''Calculus'' ''calc.pdf'' ''Math'' x n) ''go'' = Finite 0" for x n
    by (simp add: calculateRelevance_weighted weighted_hits_def hit_def ascii_strings_simps
        sample_resource_def lower_char_def)
  have mf: "matchesFilters ascii_strings r ?f" for r
    by (simp add: matchesFilters_def no_filters_def)
  have l1: "List.map_filter library [''a'', ''b'', ''c'']
      = [sample_resource ''a'' ''Go Programming'' ''go.pdf'' ''CS'' (Finite 4.5) 10,
         sample_resource ''b'' ''Go Networking'' ''net.pdf'' ''CS'' (Finite 4.0) 3,
         sample_resource ''c'' ''Calculus'' ''calc.pdf'' ''Math'' (Finite 3.5) 7]"
    by (simp add: library_def List.map_filter_def)
  have l2: "List.map_filter library [''c'', ''b'', ''a'']
      = [sample_resource ''c'' ''Calculus'' ''calc.pdf'' ''Math'' (Finite 3.5) 7,
         sample_resource ''b'' ''Go Networking'' ''net.pdf'' ''CS'' (Finite 4.0) 3,
         sample_resource ''a'' ''Go Programming'' ''go.pdf'' ''CS'' (Finite 4.5) 10]"
    by (simp add: library_def List.map_filter_def)
  have m1: "matches ascii_strings (List.map_filter library [''a'', ''b'', ''c'']) ''go'' ?f
      = [?ra, ?rb]"
    unfolding l1
    by (simp add: matches_def is_match_def to_result_def ra rb rc mf)
       (simp add: sample_resource_def len_def)
  have m2: "matches ascii_strings (List.map_filter library [''c'', ''b'', ''a'']) ''go'' ?f
      = [?rb, ?ra]"
    unfolding l2
    by (simp add: matches_def is_match_def to_result_def ra rb rc mf)
       (simp add: sample_resource_def len_def)
  have sb: "SortBy ?f = ''downloads''" by simp
  have 3: "tie_free (key_less (SortBy ?f))
             (matches ascii_strings (List.map_filter library [''a'', ''b'', ''c''])
                (ToLower ascii_strings (TrimSpace ascii_strings ''go'')) ?f)"
    unfolding q m1 sb by (simp add: key_less_def sample_resource_def word_sless_alt)
  have 4: "Search ascii_strings insertionSort [''a'', ''b'', ''c''] library ''go'' ?f
     = Inr \<lparr>Query = ''go'', Results = [?rb, ?ra], TotalCount = 2, Page = 1, PageSize = 10\<rparr>"
    unfolding Search_unfold [OF insertionSort_permutes] q m1
    by (simp add: sortResults_def insertionSort_def result_less_def key_less_def no_filters_def
        sample_resource_def paginate_def slice_def len_def Let_def word_sless_alt word_sle_eq)
  show ?thesis
    using Search_order_independent [OF insertionSort_permutes insertionSort_sorts 1 2 3] 4 m1 m2
    by (intro conjI)
qed

section \<open>Rating a resource\<close>

lemma IsValidRating_iff: "IsValidRating rating = (\<exists>x. rating = Finite x \<and> 1 \<le> x \<and> x \<le> 5)"
  by (cases rating) (auto simp: IsValidRating_def models_MinRating_def models_MaxRating_def fle_def)

text \<open>
  C10: a rating is valid exactly when it is a number in \<open>[1, 5]\<close>. For any other rating
  (NaN and the infinities included) \<^verbatim>\<open>AddRating\<close> returns the resource as it was
  (\<^verbatim>\<open>TotalRatings\<close>, \<^verbatim>\<open>RatingSum\<close>, \<^verbatim>\<open>AverageRating\<close> and \<^verbatim>\<open>UpdatedAt\<close> included) and signals
  nothing. A valid rating adds one to \<^verbatim>\<open>TotalRatings\<close>, adds the rating to \<^verbatim>\<open>RatingSum\<close>, sets
  \<^verbatim>\<open>UpdatedAt\<close> and sets \<^verbatim>\<open>AverageRating\<close> to the new sum divided by the new count, in
  \<^verbatim>\<open>float64\<close> arithmetic: the sum and the quotient are the real ones rounded to the nearest
  \<^verbatim>\<open>float64\<close>.
\<close>

theorem AddRating_valid_range:
  "IsValidRating rating = (\<exists>x. rating = Finite x \<and> 1 \<le> x \<and> x \<le> 5) \<and>
   (\<not> IsValidRating rating \<longrightarrow> AddRating now r rating = r) \<and>
   (IsValidRating rating \<longrightarrow>
      TotalRatings (AddRating now r rating) = TotalRatings r + 1 \<and>
      RatingSum (AddRating now r rating) = fadd (RatingSum r) rating \<and>
      UpdatedAt (AddRating now r rating) = now \<and>
      Resource.AverageRating (AddRating now r rating)
        = fdiv (RatingSum (AddRating now r rating))
            (float64_of_int (TotalRatings (AddRating now r rating)))) \<and>
   (IsValidRating rating \<and> RatingSum r = Finite s \<and> rating = Finite x \<longrightarrow>
      RatingSum (AddRating now r rating) = round64 (s + x)) \<and>
   (IsValidRating rating \<and> RatingSum (AddRating now r rating) = Finite t
      \<and> sint (TotalRatings r + 1) \<noteq> 0 \<and> \<bar>sint (TotalRatings r + 1)\<bar> < 2 ^ 53 \<longrightarrow>
      Resource.AverageRating (AddRating now r rating)
        = round64 (t / real_of_int (sint (TotalRatings (AddRating now r rating)))))"
proof -
  have a: "\<not> IsValidRating rating \<longrightarrow> AddRating now r rating = r"
    by (simp add: AddRating_def)
  have b: "IsValidRating rating \<longrightarrow>
      TotalRatings (AddRating now r rating) = TotalRatings r + 1 \<and>
      RatingSum (AddRating now r rating) = fadd (RatingSum r) rating \<and>
      UpdatedAt (AddRating now r rating) = now \<and>
      Resource.AverageRating (AddRating now r rating)
        = fdiv (RatingSum (AddRating now r rating))
            (float64_of_int (TotalRatings (AddRating now r rating)))"
    by (simp add: AddRating_def Let_def)
  have c: "IsValidRating rating \<and> RatingSum r = Finite s \<and> rating = Finite x \<longrightarrow>
      RatingSum (AddRating now r rating) = round64 (s + x)"
    by (auto simp: AddRating_def Let_def)
  have d: "Resource.AverageRating (AddRating now r rating)
        = round64 (t / real_of_int (sint (TotalRatings (AddRating now r rating))))"
    if v: "IsValidRating rating" and t: "RatingSum (AddRating now r rating) = Finite t"
      and n0: "sint (TotalRatings r + 1) \<noteq> 0" and n53: "\<bar>sint (TotalRatings r + 1)\<bar> < 2 ^ 53"
  proof -
    have n: "TotalRatings (AddRating now r rating) = TotalRatings r + 1"
      using b v by simp
    have f: "float64_of_int (TotalRatings r + 1) = Finite (real_of_int (sint (TotalRatings r + 1)))"
      using n53 by (rule float64_of_int_exact)
    have "Resource.AverageRating (AddRating now r rating)
        = fdiv (Finite t) (float64_of_int (TotalRatings r + 1))"
      using b v t n by simp
    then show ?thesis unfolding f n using n0 by (simp del: of_int_sint)
  qed
  show ?thesis using IsValidRating_iff [of rating] a b c d by blast
qed

theorem AddRating_valid_range_witness:
  "AddRating 7 (sample_resource ''a'' ''Go'' ''go.pdf'' ''CS'' (Finite 0) 0) (Finite 5.5)
     = sample_resource ''a'' ''Go'' ''go.pdf'' ''CS'' (Finite 0) 0 \<and>
   AddRating 7 (sample_resource ''a'' ''Go'' ''go.pdf'' ''CS'' (Finite 0) 0) (Finite 0.5)
     = sample_resource ''a'' ''Go'' ''go.pdf'' ''CS'' (Finite 0) 0 \<and>
   AddRating 7 (sample_resource ''a'' ''Go'' ''go.pdf'' ''CS'' (Finite 0) 0) NaN
     = sample_resource ''a'' ''Go'' ''go.pdf'' ''CS'' (Finite 0) 0 \<and>
   TotalRatings (AddRating 7 (sample_resource ''a'' ''Go'' ''go.pdf'' ''CS'' (Finite 0) 0) (Finite 4)) = 1 \<and>
   RatingSum (AddRating 7 (sample_resource ''a'' ''Go'' ''go.pdf'' ''CS'' (Finite 0) 0) (Finite 4))
     = Finite 4 \<and>
   UpdatedAt (AddRating 7 (sample_resource ''a'' ''Go'' ''go.pdf'' ''CS'' (Finite 0) 0) (Finite 4)) = 7 \<and>
   Resource.AverageRating
       (AddRating 7 (sample_resource ''a'' ''Go'' ''go.pdf'' ''CS'' (Finite 0) 0) (Finite 4))
     = Finite 4"
proof -
  let ?r = "sample_resource ''a'' ''Go'' ''go.pdf'' ''CS'' (Finite 0) 0"
  have f: "TotalRatings ?r = 0" "RatingSum ?r = Finite 0" by (simp_all add: sample_resource_def)
  have 1: "AddRating 7 ?r (Finite 5.5) = ?r"
    using AddRating_valid_range [of "Finite 5.5" 7 ?r] by simp
  have 2: "AddRating 7 ?r (Finite 0.5) = ?r"
    using AddRating_valid_range [of "Finite 0.5" 7 ?r] by simp
  have 3: "AddRating 7 ?r NaN = ?r"
    using AddRating_valid_range [of NaN 7 ?r] by simp
  have v: "IsValidRating (Finite 4)"
    using AddRating_valid_range [of "Finite 4" 7 ?r] by simp
  have e: "fadd (Finite 0) (Finite 4) = Finite 4" "fdiv (Finite 4) (float64_of_int 1) = Finite 4"
    by (simp_all add: float_eval)
  note t = AddRating_valid_range [of "Finite 4" 7 ?r, THEN conjunct2, THEN conjunct2,
      THEN conjunct1, rule_format, OF v]
  have 4: "TotalRatings (AddRating 7 ?r (Finite 4)) = 1 \<and> RatingSum (AddRating 7 ?r (Finite 4)) = Finite 4
      \<and> UpdatedAt (AddRating 7 ?r (Finite 4)) = 7
      \<and> Resource.AverageRating (AddRating 7 ?r (Finite 4)) = Finite 4"
    using t unfolding f e by (simp add: e)
  show ?thesis using 1 2 3 4 by simp
qed

section \<open>Recalculating all reputations\<close>

lemma heap_UpdateUser: "heap (snd (UpdateUser st a)) = heap st"
  by (simp add: UpdateUser_def)

lemma users_UpdateUser:
  "users (snd (UpdateUser st a)) uid = Some b \<Longrightarrow> users st uid = Some b \<or> b = a"
  by (auto simp: UpdateUser_def split: if_splits)

lemma recomputed_idem: "recomputed (recomputed u) = recomputed u"
  by (simp add: recomputed_def)

lemma recalculate_step:
  "recalculate_loop (a # rest) st =
     recalculate_loop rest
       (snd (UpdateUser (st\<lparr>heap := (heap st)(a := recomputed (heap st a))\<rparr>) a))"
  by (simp add: Let_def assign_def recomputed_def split: prod.splits option.splits)

lemma recalculate_loop_heap:
  "heap (recalculate_loop all st) = (\<lambda>b. if b \<in> set all then recomputed (heap st b) else heap st b)"
proof (induction all arbitrary: st)
  case Nil
  show ?case by simp
next
  case (Cons a rest)
  show ?case
    unfolding recalculate_step Cons.IH heap_UpdateUser
    by (auto simp: recomputed_idem)
qed

lemma recalculate_loop_users:
  "users (recalculate_loop all st) uid = Some b \<Longrightarrow> users st uid = Some b \<or> b \<in> set all"
proof (induction all arbitrary: st)
  case Nil
  then show ?case by simp
next
  case (Cons a rest)
  from Cons.prems have
    "users (snd (UpdateUser (st\<lparr>heap := (heap st)(a := recomputed (heap st a))\<rparr>) a)) uid = Some b
       \<or> b \<in> set rest"
    unfolding recalculate_step by (rule Cons.IH)
  then show ?case by (auto dest: users_UpdateUser)
qed

text \<open>
  C6: \<^verbatim>\<open>RecalculateAll\<close> returns no error, whatever the store holds and whether or not
  \<^verbatim>\<open>UpdateUser\<close> fails for some of the accounts: a failed update is not handed to the caller,
  and the loop goes on, so that every account the enumeration handed over ends with the
  score and the tier recomputed from its counters, and no other object changes.
  (\<^verbatim>\<open>GetAllUsers\<close> of the in-memory store never fails.)
\<close>

theorem RecalculateAll_best_effort:
  "fst (RecalculateAll order st) = None \<and>
   (\<forall>a \<in> set (List.map_filter (users st) order).
      heap (snd (RecalculateAll order st)) a = recomputed (heap st a)) \<and>
   (\<forall>a. a \<notin> set (List.map_filter (users st) order) \<longrightarrow>
      heap (snd (RecalculateAll order st)) a = heap st a)"
  by (simp add: RecalculateAll_def GetAllUsers_def recalculate_loop_heap)

theorem RecalculateAll_best_effort_witness:
  "fst (UpdateUser (mismatched_store\<lparr>heap := (heap mismatched_store)
                       (0 := recomputed (heap mismatched_store 0))\<rparr>) 0)
     = Some ErrUserNotFound \<and>
   fst (RecalculateAll [''x'', ''y''] mismatched_store) = None \<and>
   sint (Reputation (heap (snd (RecalculateAll [''x'', ''y''] mismatched_store)) 0)) = 60 \<and>
   sint (Reputation (heap (snd (RecalculateAll [''x'', ''y''] mismatched_store)) 1)) = - 50 \<and>
   Classification (heap (snd (RecalculateAll [''x'', ''y''] mismatched_store)) 1) = ''Leecher''"
proof -
  note t = RecalculateAll_best_effort [of "[''x'', ''y'']" mismatched_store]
  have m: "List.map_filter (users mismatched_store) [''x'', ''y''] = [0, 1]"
    by (simp add: mismatched_store_def List.map_filter_def)
  have h0: "heap (snd (RecalculateAll [''x'', ''y''] mismatched_store)) 0
      = recomputed (heap mismatched_store 0)"
    using t unfolding m by simp
  have h1: "heap (snd (RecalculateAll [''x'', ''y''] mismatched_store)) 1
      = recomputed (heap mismatched_store 1)"
    using t unfolding m by simp
  have f: "fst (UpdateUser (mismatched_store\<lparr>heap := (heap mismatched_store)
                       (0 := recomputed (heap mismatched_store 0))\<rparr>) 0) = Some ErrUserNotFound"
    by (simp add: UpdateUser_def mismatched_store_def recomputed_def NewUser_def)
  have r0: "sint (Reputation (recomputed (heap mismatched_store 0))) = 60"
    by (simp add: mismatched_store_def recomputed_def NewUser_def CalculateReputation_def
        go_consts float_eval)
  have r1: "sint (Reputation (recomputed (heap mismatched_store 1))) = - 50"
    by (simp add: mismatched_store_def recomputed_def NewUser_def CalculateReputation_def
        go_consts float_eval)
  have c1: "Classification (recomputed (heap mismatched_store 1)) = ''Leecher''"
    by (simp add: mismatched_store_def recomputed_def NewUser_def CalculateReputation_def
        GetClassificationForScore_def class_names go_consts float_eval word_sless_alt word_sle_eq)
  show ?thesis using t f r0 r1 c1 unfolding h0 h1 by simp
qed

section \<open>The tier of an account\<close>

lemma consistent_recomputed: "consistent (recomputed u)"
  by (simp add: consistent_def recomputed_def GetClassification_eq)

lemma consistent_NewUser: "consistent (NewUser now uid username email)"
  by (simp add: consistent_def NewUser_def GetClassification_def go_consts word_sless_alt word_sle_eq)

lemma stored_consistent_UpdateUser:
  "stored_consistent st \<Longrightarrow> consistent (heap st a) \<Longrightarrow> stored_consistent (snd (UpdateUser st a))"
  by (auto simp: stored_consistent_def UpdateUser_def)

lemma stored_consistent_Create:
  "stored_consistent st \<Longrightarrow> consistent (heap st a) \<Longrightarrow> stored_consistent (snd (Create st a))"
  by (auto simp: stored_consistent_def Create_def)

lemma stored_consistent_change:
  assumes "stored_consistent st" and "users st' = users st"
    and "\<And>b. b \<noteq> a \<Longrightarrow> heap st' b = heap st b" and "consistent (heap st' a)"
  shows "stored_consistent st'"
  using assms unfolding stored_consistent_def by metis

lemma UpdateReputationByPointer_facts:
  "users (UpdateReputationByPointer st a d) = users st"
  "b \<noteq> a \<Longrightarrow> heap (UpdateReputationByPointer st a d) b = heap st b"
  "consistent (heap (UpdateReputationByPointer st a d) a)"
  by (simp_all add: UpdateReputationByPointer_def assign_def Let_def consistent_def)

lemma assign_facts:
  "users (assign st a f) = users st"
  "b \<noteq> a \<Longrightarrow> heap (assign st a f) b = heap st b"
  "heap (assign st a f) a = f (heap st a)"
  by (simp_all add: assign_def)

lemma stored_consistent_after_update:
  assumes "stored_consistent st"
  shows "stored_consistent (UpdateReputationByPointer (assign st a f) a d)"
  using assms
proof (rule stored_consistent_change)
  show "users (UpdateReputationByPointer (assign st a f) a d) = users st"
    by (simp add: UpdateReputationByPointer_facts assign_facts)
  show "heap (UpdateReputationByPointer (assign st a f) a d) b = heap st b" if "b \<noteq> a" for b
    using that by (simp add: UpdateReputationByPointer_facts assign_facts)
  show "consistent (heap (UpdateReputationByPointer (assign st a f) a d) a)"
    by (rule UpdateReputationByPointer_facts)
qed

lemma stored_consistent_RecordUpload:
  "stored_consistent st \<Longrightarrow> stored_consistent (snd (RecordUpload st userID))"
  by (auto simp: RecordUpload_def Let_def split: sum.splits
      intro!: stored_consistent_UpdateUser stored_consistent_after_update UpdateReputationByPointer_facts)

lemma stored_consistent_RecordDownload:
  "stored_consistent st \<Longrightarrow> stored_consistent (snd (RecordDownload st userID))"
  by (auto simp: RecordDownload_def Let_def split: sum.splits
      intro!: stored_consistent_UpdateUser stored_consistent_after_update UpdateReputationByPointer_facts)

lemma stored_consistent_UpdateRatingReceived:
  "stored_consistent st \<Longrightarrow> stored_consistent (snd (UpdateRatingReceived st userID r))"
  by (auto simp: UpdateRatingReceived_def Let_def split: sum.splits
      intro!: stored_consistent_UpdateUser stored_consistent_after_update UpdateReputationByPointer_facts)

lemma stored_consistent_CreateUser:
  assumes "stored_consistent st"
  shows "stored_consistent (snd (CreateUser st uid now username email password))"
proof -
  let ?a = "next_addr st"
  let ?st1 = "st\<lparr>heap := (heap st)(?a := NewUser now uid username email), next_addr := ?a + 1\<rparr>"
  let ?st2 = "assign ?st1 ?a (\<lambda>u. u\<lparr>Password := password\<rparr>)"
  have c: "consistent (heap ?st2 ?a)"
    using consistent_NewUser [of now uid username email]
    by (simp add: assign_def consistent_def)
  have "stored_consistent ?st2"
    using assms
  proof (rule stored_consistent_change)
    show "users ?st2 = users st" by (simp add: assign_def)
    show "heap ?st2 b = heap st b" if "b \<noteq> ?a" for b using that by (simp add: assign_def)
    show "consistent (heap ?st2 ?a)" by (rule c)
  qed
  then have "stored_consistent (snd (Create ?st2 ?a))"
    using c by (rule stored_consistent_Create)
  moreover have "snd (CreateUser st uid now username email password) = snd (Create ?st2 ?a)"
    by (simp add: CreateUser_def Let_def split: prod.splits option.splits)
  ultimately show ?thesis by simp
qed

lemma stored_consistent_RecalculateAll:
  assumes "stored_consistent st"
  shows "stored_consistent (snd (RecalculateAll order st))"
  unfolding stored_consistent_def
proof (intro allI impI)
  fix uid a
  let ?all = "List.map_filter (users st) order"
  assume "users (snd (RecalculateAll order st)) uid = Some a"
  then have "users (recalculate_loop ?all st) uid = Some a"
    by (simp add: RecalculateAll_def GetAllUsers_def)
  then have "users st uid = Some a \<or> a \<in> set ?all"
    by (rule recalculate_loop_users)
  then have "consistent (if a \<in> set ?all then recomputed (heap st a) else heap st a)"
    using assms consistent_recomputed by (auto simp: stored_consistent_def)
  then show "consistent (heap (snd (RecalculateAll order st)) a)"
    by (simp add: RecalculateAll_def GetAllUsers_def recalculate_loop_heap)
qed

lemma reachable_stored_consistent: "reachable st \<Longrightarrow> stored_consistent st"
proof (induction rule: reachable.induct)
  case init
  show ?case by (simp add: stored_consistent_def NewMemoryStore_def)
next
  case (create st uid now username email password)
  then show ?case by (intro stored_consistent_CreateUser)
next
  case (upload st userID)
  then show ?case by (intro stored_consistent_RecordUpload)
next
  case (download st userID)
  then show ?case by (intro stored_consistent_RecordDownload)
next
  case (rating st userID r)
  then show ?case by (intro stored_consistent_UpdateRatingReceived)
next
  case (recalculate st order)
  then show ?case by (intro stored_consistent_RecalculateAll)
qed

text \<open>
  C8: in every state the program reaches by creating users, recording uploads, downloads
  and received ratings and recalculating all reputations, the tier of every stored account
  is the classification of its score. A new account has score 0 and tier Neutral; an
  update of the reputation and a recalculation both set the tier from the new score.
\<close>

theorem tier_matches_score:
  assumes "reachable st" and "users st uid = Some a"
  shows "Classification (heap st a) = GetClassification (Reputation (heap st a)) \<and>
         Reputation (NewUser now uid' username email) = 0 \<and>
         Classification (NewUser now uid' username email) = ClassNeutral \<and>
         Classification (UpdateReputationByValue u delta)
           = GetClassification (Reputation (UpdateReputationByValue u delta)) \<and>
         Classification (recomputed u) = GetClassification (Reputation (recomputed u))"
proof -
  have "consistent (heap st a)"
    using reachable_stored_consistent [OF assms(1)] assms(2) by (simp add: stored_consistent_def)
  moreover have "consistent (recomputed u)" by (rule consistent_recomputed)
  ultimately show ?thesis
    by (simp add: consistent_def NewUser_def UpdateReputationByValue_def Let_def)
qed

theorem tier_matches_score_witness:
  "reachable example_run \<and> users example_run ''u1'' = Some 0 \<and>
   Reputation (heap example_run 0) = - 1 \<and>
   Classification (heap example_run 0) = ''Leecher''"
proof -
  have r: "reachable example_run"
    unfolding example_run_def
    by (intro reachable.download reachable.upload reachable.create reachable.init)
  have u: "users example_run ''u1'' = Some 0" by code_simp
  have s: "Reputation (heap example_run 0) = - 1" by code_simp
  have g: "GetClassification (- 1) = ''Leecher''" by code_simp
  show ?thesis
    using tier_matches_score [OF r u] r u s g by simp
qed

section \<open>Network statistics\<close>










end
